theory Spec2Isabelle
  imports Main "HOL-Library.AList"
begin

section \<open>Strings\<close>

text \<open>
  A JavaScript string is modelled as the \<^typ>\<open>string\<close> of its UTF-8 bytes, so an ASCII
  character is one \<^typ>\<open>char\<close>. Comparing, concatenating, searching for an ASCII text
  and splitting at a comma give on the bytes what JavaScript gives on the string. Only
  \<open>slice\<close> counts: it counts UTF-16 code units where \<open>take\<close> counts bytes, which is the
  same on ASCII text; the code slices provider ids, which are base58.
\<close>

definition lowerChar :: "char \<Rightarrow> char" where
  "lowerChar c =
     (case map_of (zip ''ABCDEFGHIJKLMNOPQRSTUVWXYZ'' ''abcdefghijklmnopqrstuvwxyz'') c of
        Some l \<Rightarrow> l
      | None \<Rightarrow> c)"

text \<open>
  \<open>toLowerCase\<close>. The letters \<open>A-Z\<close> go to \<open>a-z\<close>. Two characters outside ASCII have a
  lower-case form with an ASCII letter in it: the Kelvin sign U+212A (the bytes
  \<open>E2 84 AA\<close>) goes to \<open>k\<close>, and the dotted capital I U+0130 (the bytes \<open>C4 B0\<close>) goes
  to \<open>i\<close> followed by U+0307 (the bytes \<open>CC 87\<close>). Every other character outside ASCII
  has a lower-case form outside ASCII and is left as it is: the result is only matched
  against \<^verbatim>\<open>[^a-z0-9]\<close>, which a character outside ASCII matches in either form.
\<close>

fun toLowerCase :: "string \<Rightarrow> string" where
  "toLowerCase [] = []"
| "toLowerCase (c # cs) =
     (if c = CHR 0xE2 \<and> take 2 cs = [CHR 0x84, CHR 0xAA]
      then CHR ''k'' # toLowerCase (drop 2 cs)
      else if c = CHR 0xC4 \<and> take 1 cs = [CHR 0xB0]
      then CHR ''i'' # CHR 0xCC # CHR 0x87 # toLowerCase (drop 1 cs)
      else lowerChar c # toLowerCase cs)"

text \<open>The character class \<^verbatim>\<open>[a-z0-9]\<close>.\<close>

definition isAlnum :: "char \<Rightarrow> bool" where
  "isAlnum c = (c \<in> set ''abcdefghijklmnopqrstuvwxyz0123456789'')"

text \<open>
  \<^verbatim>\<open>s.replace(/[^a-z0-9]+/g, '_')\<close>: scanning from the left, a character of the class is
  kept; at any other character the longest run of such characters is matched and replaced
  by one underscore, and the scan goes on behind the run.
\<close>

function replaceNonAlnumRuns :: "string \<Rightarrow> string" where
  "replaceNonAlnumRuns [] = []"
| "replaceNonAlnumRuns (c # cs) =
     (if isAlnum c then c # replaceNonAlnumRuns cs
      else CHR ''_'' # replaceNonAlnumRuns (dropWhile (\<lambda>d. \<not> isAlnum d) cs))"
  by pat_completeness auto
termination
  by (relation "measure length") (auto simp: le_imp_less_Suc length_dropWhile_le)

text \<open>
  \<^verbatim>\<open>s.replace(/^_|_$/g, '')\<close>: the first alternative matches an underscore at index 0, the
  second an underscore that is the last character of the string; the scan is global, so
  both may be removed, and an underscore consumed by the first is not seen by the second.
\<close>

definition stripEdgeUnderscores :: "string \<Rightarrow> string" where
  "stripEdgeUnderscores s =
     (let s1 = (case s of [] \<Rightarrow> [] | c # cs \<Rightarrow> if c = CHR ''_'' then cs else c # cs)
      in if s1 \<noteq> [] \<and> last s1 = CHR ''_'' then butlast s1 else s1)"

text \<open>\<^verbatim>\<open>id.slice(0, 4)\<close> is \<open>take 4\<close> of the id: the whole id when it is shorter.\<close>

definition generateToolName :: "string \<Rightarrow> string \<Rightarrow> string" where
  "generateToolName title pid =
     (let slug = stripEdgeUnderscores (replaceNonAlnumRuns (toLowerCase title));
          suffix = take 4 pid
      in ''portal_'' @ slug @ ''_'' @ suffix)"

text \<open>\<^verbatim>\<open>s.endsWith(t)\<close> and \<^verbatim>\<open>s.includes(t)\<close>.\<close>

definition endsWith :: "string \<Rightarrow> string \<Rightarrow> bool" where
  "endsWith s t = (length t \<le> length s \<and> drop (length s - length t) s = t)"

fun startsWith :: "string \<Rightarrow> string \<Rightarrow> bool" where
  "startsWith s [] = True"
| "startsWith [] (d # t) = False"
| "startsWith (c # s) (d # t) = (c = d \<and> startsWith s t)"

fun includesStr :: "string \<Rightarrow> string \<Rightarrow> bool" where
  "includesStr [] t = (t = [])"
| "includesStr (c # s) t = (startsWith (c # s) t \<or> includesStr s t)"

text \<open>
  \<^verbatim>\<open>s.split(',')\<close>: the pieces between the separators, empty pieces included; the empty
  string gives one empty piece. The result is never the empty list.
\<close>

fun split :: "char \<Rightarrow> string \<Rightarrow> string list" where
  "split sep [] = [[]]"
| "split sep (c # cs) =
     (if c = sep then [] # split sep cs
      else (case split sep cs of
              [] \<Rightarrow> [[c]]
            | piece # pieces \<Rightarrow> (c # piece) # pieces))"

section \<open>JavaScript values\<close>

text \<open>
  The documents fetched from a provider and the arguments of a call have the type
  \<^verbatim>\<open>any\<close>. They are modelled as the values JSON can denote, with \<open>undefined\<close> for the
  result of reading a property that is not there. An object is the list of its own
  properties in the order \<^verbatim>\<open>Object.entries\<close> enumerates them. Of a number only its
  being zero or not is observed by the code.
\<close>

datatype jsval =
    JUndefined
  | JNull
  | JBool bool
  | JNum int
  | JStr string
  | JArr "jsval list"
  | JObj "(string \<times> jsval) list"

datatype js_error = TypeError

text \<open>What \<^verbatim>\<open>if (v)\<close>, \<^verbatim>\<open>!v\<close> and \<^verbatim>\<open>v || w\<close> test.\<close>

fun truthy :: "jsval \<Rightarrow> bool" where
  "truthy JUndefined = False"
| "truthy JNull = False"
| "truthy (JBool b) = b"
| "truthy (JNum n) = (n \<noteq> 0)"
| "truthy (JStr s) = (s \<noteq> [])"
| "truthy (JArr xs) = True"
| "truthy (JObj kvs) = True"

definition js_or :: "jsval \<Rightarrow> jsval \<Rightarrow> jsval" where
  "js_or a b = (if truthy a then a else b)"

text \<open>
  \<^verbatim>\<open>v.k\<close> for the property names the code reads (\<open>paths\<close>, \<open>operationId\<close>, \<open>summary\<close>,
  \<open>description\<close>, \<open>requestBody\<close>, \<open>content\<close>, \<open>application/json\<close>, \<open>schema\<close>), none of
  which a prototype defines: reading from \<open>null\<close> or \<open>undefined\<close> throws, an object gives
  its property or \<open>undefined\<close>, every other value gives \<open>undefined\<close>.
\<close>

fun getProp :: "jsval \<Rightarrow> string \<Rightarrow> js_error + jsval" where
  "getProp JUndefined k = Inl TypeError"
| "getProp JNull k = Inl TypeError"
| "getProp (JObj kvs) k = Inr (case map_of kvs k of None \<Rightarrow> JUndefined | Some v \<Rightarrow> v)"
| "getProp v k = Inr JUndefined"

text \<open>\<^verbatim>\<open>v?.k\<close>: \<open>undefined\<close> when \<open>v\<close> is \<open>null\<close> or \<open>undefined\<close>, and never throws.\<close>

definition optProp :: "jsval \<Rightarrow> string \<Rightarrow> jsval" where
  "optProp v k = (case getProp v k of Inl e \<Rightarrow> JUndefined | Inr r \<Rightarrow> r)"

text \<open>The decimal numeral of an array index, as a property name.\<close>

definition digitChar :: "nat \<Rightarrow> char" where
  "digitChar d = ''0123456789'' ! (d mod 10)"

function showNat :: "nat \<Rightarrow> string" where
  "showNat n = (if n < 10 then [digitChar n] else showNat (n div 10) @ [digitChar n])"
  by pat_completeness auto
termination
  by (relation "measure id") auto

text \<open>
  \<^verbatim>\<open>Object.entries(v)\<close>: throws on \<open>null\<close> and \<open>undefined\<close>; an array and a string
  enumerate their indices; a number and a boolean have no own properties.
\<close>

fun entries :: "jsval \<Rightarrow> js_error + (string \<times> jsval) list" where
  "entries JUndefined = Inl TypeError"
| "entries JNull = Inl TypeError"
| "entries (JObj kvs) = Inr kvs"
| "entries (JArr xs) = Inr (zip (map showNat [0..<length xs]) xs)"
| "entries (JStr s) = Inr (zip (map showNat [0..<length s]) (map (\<lambda>c. JStr [c]) s))"
| "entries (JBool b) = Inr []"
| "entries (JNum n) = Inr []"

section \<open>Data model\<close>

text \<open>
  A tool as \<open>refreshPortals\<close> stores it. The three fields are copied from the fetched
  document unchecked, so they are \<^typ>\<open>jsval\<close>s.
\<close>

record tool =
  tool_name :: jsval
  tool_description :: jsval
  tool_parameters :: jsval

text \<open>The interface \<open>PortalMetadata\<close>; \<open>tools\<close> is the optional field.\<close>

record PortalMetadata =
  pm_id :: string
  pm_title :: string
  pm_description :: string
  pm_url :: string
  pm_paymentVault :: string
  pm_tools :: "tool list option"

text \<open>What \<open>getAPI\<close> of the payment client returns, the two keys in their string form.\<close>

record api =
  api_publicKey :: string
  api_title :: string
  api_description :: string
  api_url :: string
  api_paymentVault :: string

text \<open>An entry of the list \<open>getTools\<close> returns.\<close>

record descriptor =
  d_name :: jsval
  d_description :: jsval
  d_inputSchema :: jsval

text \<open>
  The fields of the manager that change: \<open>portals\<close>, and the Ajv instance.

  The field \<open>portals\<close> is a \<open>Map\<close>: its entries are enumerated in the order in which
  their keys were first set, and setting a key that is present replaces the value in
  place. That is \<^const>\<open>AList.update\<close> on an association list.

  The Ajv instance keeps what it has compiled, so what \<open>compile\<close> does with a schema may
  depend on the schemas it was given before (a schema with the \<open>$id\<close> of an earlier one
  is refused). Its state is described by \<open>ajv_compiled\<close>, the schemas passed to
  \<open>compile\<close> so far, in that order.
\<close>

type_synonym snapshot = "(string \<times> PortalMetadata) list"

record manager =
  portals :: snapshot
  ajv_compiled :: "jsval list"

text \<open>
  What a call can raise: an \<open>Error\<close> made by the code, with its message, or an
  exception of the engine that the code does not catch.
\<close>

datatype error = Error string | Uncaught js_error

text \<open>
  A value the payment client rejects with: \<open>null\<close> or \<open>undefined\<close>, or any other value,
  described by its \<open>message\<close> (empty when it has none) and the result of its
  \<open>toString()\<close>.
\<close>

datatype thrown = Nullish | Thrown string string

section \<open>Collaborators\<close>

text \<open>
  Everything the manager reads from outside, fixed for the duration of one call:
  the environment variable \<open>PORTALS_WHITELIST\<close> (\<open>None\<close> when it is not set), the
  payment client (\<open>getAPI\<close> and \<open>callAPI\<close>, where \<open>None\<close> and \<open>Inl\<close> stand for a
  rejected promise, and the wallet address in base58), the HTTP client (\<open>axios.get\<close>
  on a URL, \<open>None\<close> for any rejection, the time-out included, otherwise the body of the
  response), and the two library functions \<open>JSON.stringify\<close> and Ajv.

  Ajv is described by two functions of the state of the instance (the schemas compiled
  so far) and a schema: \<open>ajv_compile_error\<close> gives the message with which \<open>compile\<close>
  throws when it refuses the schema, and \<open>ajv_violations\<close> gives, for a value, the error
  objects of all the constraints of the schema that the value violates, in the order
  they are checked.
\<close>

record world =
  env_PORTALS_WHITELIST :: "string option"
  getAPI :: "string \<Rightarrow> api option"
  axios_get :: "string \<Rightarrow> jsval option"
  callAPI :: "string \<Rightarrow> jsval \<Rightarrow> jsval \<Rightarrow> thrown + jsval"
  getAddress :: string
  stringify :: "jsval \<Rightarrow> string"
  ajv_compile_error :: "jsval list \<Rightarrow> jsval \<Rightarrow> string option"
  ajv_violations :: "jsval list \<Rightarrow> jsval \<Rightarrow> jsval \<Rightarrow> jsval list"

text \<open>
  The options of the validator. With \<open>allErrors\<close> a validation function reports every
  violation, without it it stops at the first.
\<close>

record ajv_options =
  allErrors :: bool

definition ajv :: ajv_options where
  "ajv = \<lparr>allErrors = True\<rparr>"

definition validate_errors ::
  "ajv_options \<Rightarrow> world \<Rightarrow> jsval list \<Rightarrow> jsval \<Rightarrow> jsval \<Rightarrow> jsval list" where
  "validate_errors opts w compiled schema args =
     (if allErrors opts then ajv_violations w compiled schema args
      else take 1 (ajv_violations w compiled schema args))"

section \<open>refreshPortals\<close>

definition emptyObjectSchema :: jsval where
  "emptyObjectSchema = JObj [(''type'', JStr ''object''), (''properties'', JObj [])]"

text \<open>
  The body of the inner loop, for one \<open>[method, operation]\<close> entry: \<open>None\<close> is
  \<open>continue\<close>, \<open>Inl\<close> the exception of reading \<open>operationId\<close> from \<open>null\<close>. Once that
  read has succeeded the operation is neither \<open>null\<close> nor \<open>undefined\<close>, and the later
  reads cannot throw.
\<close>

definition operationTool :: "string \<Rightarrow> string \<Rightarrow> jsval \<Rightarrow> js_error + tool option" where
  "operationTool description method op =
     (if method = ''parameters'' then Inr None
      else case getProp op ''operationId'' of
             Inl e \<Rightarrow> Inl e
           | Inr operationId \<Rightarrow>
               if \<not> truthy operationId then Inr None
               else Inr (Some
                 \<lparr>tool_name = operationId,
                  tool_description =
                    js_or (js_or (optProp op ''summary'') (optProp op ''description''))
                          (JStr description),
                  tool_parameters =
                    js_or (optProp (optProp (optProp (optProp op ''requestBody'') ''content'')
                                     ''application/json'') ''schema'')
                          emptyObjectSchema\<rparr>))"

fun methodLoop :: "string \<Rightarrow> (string \<times> jsval) list \<Rightarrow> tool list \<Rightarrow> js_error + tool list" where
  "methodLoop description [] tools = Inr tools"
| "methodLoop description ((method, op) # rest) tools =
     (case operationTool description method op of
        Inl e \<Rightarrow> Inl e
      | Inr None \<Rightarrow> methodLoop description rest tools
      | Inr (Some t) \<Rightarrow> methodLoop description rest (tools @ [t]))"

fun pathLoop :: "string \<Rightarrow> (string \<times> jsval) list \<Rightarrow> tool list \<Rightarrow> js_error + tool list" where
  "pathLoop description [] tools = Inr tools"
| "pathLoop description ((pathKey, pathValue) # rest) tools =
     (case entries pathValue of
        Inl e \<Rightarrow> Inl e
      | Inr methods \<Rightarrow>
          (case methodLoop description methods tools of
             Inl e \<Rightarrow> Inl e
           | Inr tools' \<Rightarrow> pathLoop description rest tools'))"

text \<open>From \<open>openapi.paths || {}\<close> to the end of the two loops.\<close>

definition collectTools :: "string \<Rightarrow> jsval \<Rightarrow> js_error + tool list" where
  "collectTools description openapi =
     (case getProp openapi ''paths'' of
        Inl e \<Rightarrow> Inl e
      | Inr p \<Rightarrow>
          (case entries (js_or p (JObj [])) of
             Inl e \<Rightarrow> Inl e
           | Inr paths \<Rightarrow> pathLoop description paths []))"

definition schemaUrl :: "string \<Rightarrow> string" where
  "schemaUrl url =
     (if endsWith url ''/'' then url @ ''openapi.json'' else url @ ''/openapi.json'')"

text \<open>
  The inner \<open>try\<close> block: whatever is thrown inside it (by the fetch, or while the
  document is walked) is logged and leaves the metadata without \<open>tools\<close>.
\<close>

definition fetchSchema :: "world \<Rightarrow> PortalMetadata \<Rightarrow> PortalMetadata" where
  "fetchSchema w metadata =
     (case axios_get w (schemaUrl (pm_url metadata)) of
        None \<Rightarrow> metadata
      | Some openapi \<Rightarrow>
          (case collectTools (pm_description metadata) openapi of
             Inl e \<Rightarrow> metadata
           | Inr tools \<Rightarrow>
               if length tools > 0 then metadata\<lparr>pm_tools := Some tools\<rparr> else metadata))"

definition newMetadata :: "api \<Rightarrow> PortalMetadata" where
  "newMetadata a =
     \<lparr>pm_id = api_publicKey a,
      pm_title = api_title a,
      pm_description = api_description a,
      pm_url = api_url a,
      pm_paymentVault = api_paymentVault a,
      pm_tools = None\<rparr>"

text \<open>The loop over the whitelist; a provider whose \<open>getAPI\<close> fails is logged and skipped.\<close>

fun whitelistLoop :: "world \<Rightarrow> string list \<Rightarrow> snapshot \<Rightarrow> snapshot" where
  "whitelistLoop w [] newPortals = newPortals"
| "whitelistLoop w (pid # rest) newPortals =
     (case getAPI w pid of
        None \<Rightarrow> whitelistLoop w rest newPortals
      | Some a \<Rightarrow>
          whitelistLoop w rest (AList.update pid (fetchSchema w (newMetadata a)) newPortals))"

text \<open>\<^verbatim>\<open>process.env.PORTALS_WHITELIST?.split(',').filter(Boolean) || []\<close>\<close>

definition whitelist :: "world \<Rightarrow> string list" where
  "whitelist w =
     (case env_PORTALS_WHITELIST w of
        None \<Rightarrow> []
      | Some s \<Rightarrow> filter (\<lambda>piece. piece \<noteq> []) (split CHR '','' s))"

definition nl :: string where
  "nl = [CHR 0x0A]"

definition configError :: error where
  "configError = Error
     (''PORTALS_WHITELIST required in MCP config.'' @ nl @
      ''Browse available Portals: https://portalsprotocol.com/browse'' @ nl @
      ''Add Portal IDs to your config env.PORTALS_WHITELIST'')"

definition refreshPortals :: "world \<Rightarrow> manager \<Rightarrow> (error + unit) \<times> manager" where
  "refreshPortals w this =
     (if length (whitelist w) = 0 then (Inl configError, this)
      else (Inr (), this\<lparr>portals := whitelistLoop w (whitelist w) []\<rparr>))"

section \<open>getTools\<close>

definition toolDescriptor :: "tool \<Rightarrow> descriptor" where
  "toolDescriptor t =
     \<lparr>d_name = tool_name t, d_description = tool_description t,
      d_inputSchema = tool_parameters t\<rparr>"

definition fallbackDescriptor :: "string \<Rightarrow> PortalMetadata \<Rightarrow> descriptor" where
  "fallbackDescriptor pid portal =
     \<lparr>d_name = JStr (generateToolName (pm_title portal) pid),
      d_description = JStr (pm_description portal),
      d_inputSchema = emptyObjectSchema\<rparr>"

text \<open>What one iteration of the loop of \<open>getTools\<close> pushes.\<close>

definition portalTools :: "string \<times> PortalMetadata \<Rightarrow> descriptor list" where
  "portalTools entry =
     (case entry of (pid, portal) \<Rightarrow>
        (case pm_tools portal of
           None \<Rightarrow> [fallbackDescriptor pid portal]
         | Some ts \<Rightarrow>
             if length ts > 0 then map toolDescriptor ts
             else [fallbackDescriptor pid portal]))"

definition getTools :: "manager \<Rightarrow> descriptor list" where
  "getTools this = concat (map portalTools (portals this))"

section \<open>findPortalAndToolByName\<close>

text \<open>
  The scan of the snapshot in its order. \<^verbatim>\<open>t.name === name\<close> compares a stored name,
  any value, with a string: they are equal when the stored name is that string.
\<close>

fun findPortalAndToolByName :: "snapshot \<Rightarrow> string \<Rightarrow> (PortalMetadata \<times> tool option) option" where
  "findPortalAndToolByName [] name = None"
| "findPortalAndToolByName ((pid, portal) # rest) name =
     (case pm_tools portal of
        None \<Rightarrow>
          if generateToolName (pm_title portal) pid = name then Some (portal, None)
          else findPortalAndToolByName rest name
      | Some ts \<Rightarrow>
          if length ts > 0 then
            (case find (\<lambda>t. tool_name t = JStr name) ts of
               Some t \<Rightarrow> Some (portal, Some t)
             | None \<Rightarrow> findPortalAndToolByName rest name)
          else if generateToolName (pm_title portal) pid = name then Some (portal, None)
          else findPortalAndToolByName rest name)"

section \<open>callTool\<close>

definition crossMark :: string where
  "crossMark = [CHR 0xE2, CHR 0x9D, CHR 0x8C]"

definition insufficientSolMessage :: "string \<Rightarrow> string" where
  "insufficientSolMessage walletAddress =
     crossMark @ '' Insufficient SOL for gas fees'' @ nl @ nl @
     ''Send SOL to: '' @ walletAddress @ nl @
     ''After funding, retry this request.''"

definition insufficientUsdcMessage :: "string \<Rightarrow> string" where
  "insufficientUsdcMessage walletAddress =
     crossMark @ '' Insufficient USDC balance'' @ nl @ nl @
     ''Send USDC to: '' @ walletAddress @ nl @
     ''After funding, retry this request.''"

text \<open>\<^verbatim>\<open>error.message || error.toString() || 'Unknown error'\<close>\<close>

definition errorMsg :: "string \<Rightarrow> string \<Rightarrow> string" where
  "errorMsg message toString =
     (if message \<noteq> [] then message
      else if toString \<noteq> [] then toString
      else ''Unknown error'')"

text \<open>
  The \<open>catch\<close> block around the call of the payment client. Reading \<open>message\<close> from
  \<open>null\<close> or \<open>undefined\<close> throws inside the block, and nothing catches that.
\<close>

fun callFailed :: "world \<Rightarrow> thrown \<Rightarrow> error" where
  "callFailed w Nullish = Uncaught TypeError"
| "callFailed w (Thrown message toString) =
     (if includesStr (errorMsg message toString) ''Insufficient SOL''
      then Error (insufficientSolMessage (getAddress w))
      else if includesStr (errorMsg message toString) ''Insufficient USDC''
              \<or> includesStr (errorMsg message toString) ''InsufficientUsdcBalance''
           then Error (insufficientUsdcMessage (getAddress w))
      else Error (''Portal call failed: '' @ errorMsg message toString))"

text \<open>
  The \<open>if (tool?.parameters)\<close> block: the error it throws, or \<open>None\<close> when it falls
  through to the call, and the manager with the state of the Ajv instance after it.
\<close>

definition checkParameters ::
  "world \<Rightarrow> tool option \<Rightarrow> jsval \<Rightarrow> manager \<Rightarrow> error option \<times> manager" where
  "checkParameters w tool args this =
     (case tool of
        None \<Rightarrow> (None, this)
      | Some t \<Rightarrow>
          if truthy (tool_parameters t) then
            (case ajv_compile_error w (ajv_compiled this) (tool_parameters t) of
               Some msg \<Rightarrow>
                 (Some (Error msg),
                  this\<lparr>ajv_compiled := ajv_compiled this @ [tool_parameters t]\<rparr>)
             | None \<Rightarrow>
                 (if validate_errors ajv w (ajv_compiled this) (tool_parameters t) args \<noteq> []
                  then Some (Error (''Invalid parameters: '' @
                         stringify w (JArr (validate_errors ajv w (ajv_compiled this)
                           (tool_parameters t) args))))
                  else None,
                  this\<lparr>ajv_compiled := ajv_compiled this @ [tool_parameters t]\<rparr>))
          else (None, this))"

text \<open>
  The \<open>try\<close> statement: the call of the payment client with the provider's id, the
  arguments and \<^verbatim>\<open>tool?.name\<close>, and the \<open>catch\<close> block for what it throws.
\<close>

definition dispatch :: "world \<Rightarrow> PortalMetadata \<Rightarrow> tool option \<Rightarrow> jsval \<Rightarrow> error + jsval" where
  "dispatch w portal tool args =
     (case callAPI w (pm_id portal) args
             (case tool of None \<Rightarrow> JUndefined | Some t \<Rightarrow> tool_name t) of
        Inr r \<Rightarrow> Inr r
      | Inl e \<Rightarrow> Inl (callFailed w e))"

definition callTool :: "world \<Rightarrow> string \<Rightarrow> jsval \<Rightarrow> manager \<Rightarrow> (error + jsval) \<times> manager" where
  "callTool w name args this =
     (case refreshPortals w this of
        (Inl e, this') \<Rightarrow> (Inl e, this')
      | (Inr u, this') \<Rightarrow>
          (case findPortalAndToolByName (portals this') name of
             None \<Rightarrow> (Inl (Error (''Portal not found for tool: '' @ name)), this')
           | Some (portal, tool) \<Rightarrow>
               (case checkParameters w tool args this' of
                  (Some e, this'') \<Rightarrow> (Inl e, this'')
                | (None, this'') \<Rightarrow> (dispatch w portal tool args, this''))))"

section \<open>The naming rule as the specification words it\<close>

text \<open>
  The specification describes the generated name by steps: lower-case the title, replace
  every run of non-alphanumeric characters with a single underscore, strip a leading and
  a trailing underscore, put the tag \<open>portal_\<close> in front and the first four characters
  of the id behind. The definitions below follow these words: every non-alphanumeric
  character is first marked by an underscore, then each run of underscores is squeezed
  into one.
\<close>

definition spec_mark :: "char \<Rightarrow> char" where
  "spec_mark c = (if isAlnum c then c else CHR ''_'')"

fun spec_squeeze :: "string \<Rightarrow> string" where
  "spec_squeeze (a # b # cs) =
     (if a = CHR ''_'' \<and> b = CHR ''_'' then spec_squeeze (b # cs)
      else a # spec_squeeze (b # cs))"
| "spec_squeeze cs = cs"

definition spec_stripLeading :: "string \<Rightarrow> string" where
  "spec_stripLeading s = (if startsWith s ''_'' then drop 1 s else s)"

definition spec_stripTrailing :: "string \<Rightarrow> string" where
  "spec_stripTrailing s = (if endsWith s ''_'' then take (length s - 1) s else s)"

definition spec_slug :: "string \<Rightarrow> string" where
  "spec_slug title =
     spec_stripTrailing (spec_stripLeading (spec_squeeze (map spec_mark (toLowerCase title))))"

definition spec_generateToolName :: "string \<Rightarrow> string \<Rightarrow> string" where
  "spec_generateToolName title pid = ''portal_'' @ spec_slug title @ ''_'' @ take 4 pid"

section \<open>Names exposed by a snapshot\<close>

text \<open>
  The names a snapshot exposes come from two sources: the \<open>operationId\<close>s stored with
  the providers that have tools, and the names generated for the providers that have
  none (the \<open>else\<close> branch of \<open>getTools\<close> and of \<open>findPortalAndToolByName\<close>).
\<close>

definition explicitNames :: "snapshot \<Rightarrow> jsval list" where
  "explicitNames s =
     concat (map (\<lambda>(pid, portal).
       case pm_tools portal of None \<Rightarrow> [] | Some ts \<Rightarrow> map tool_name ts) s)"

definition toolless :: "snapshot \<Rightarrow> snapshot" where
  "toolless s =
     filter (\<lambda>(pid, portal). pm_tools portal = None \<or> pm_tools portal = Some []) s"

definition fallbackNames :: "snapshot \<Rightarrow> string list" where
  "fallbackNames s =
     map (\<lambda>(pid, portal). generateToolName (pm_title portal) pid) (toolless s)"

text \<open>
  The names of the descriptors that \<open>getTools\<close> lists for a snapshot, in the order of
  the list; whether an entry contributes a descriptor of a given name; and the first
  entry of a snapshot that does.
\<close>

definition exposedNames :: "snapshot \<Rightarrow> jsval list" where
  "exposedNames s = map d_name (concat (map portalTools s))"

definition exposes :: "string \<times> PortalMetadata \<Rightarrow> string \<Rightarrow> bool" where
  "exposes entry name = (JStr name \<in> set (map d_name (portalTools entry)))"

definition firstExposing :: "snapshot \<Rightarrow> string \<Rightarrow> (string \<times> PortalMetadata) option" where
  "firstExposing s name = find (\<lambda>entry. exposes entry name) s"

section \<open>Example worlds\<close>

text \<open>
  A small world for concrete runs: \<open>getAPI\<close> fails for the id \<open>down\<close> and otherwise
  returns a provider titled \<open>T\<close> whose base URL is its id; the payment client answers
  every call with the given outcome. The validator refuses a schema that is neither an
  object nor a boolean and, as Ajv does in its strict mode, a schema with the keyword
  \<open>example\<close>; a schema it compiles accepts objects only.
\<close>

definition demoApi :: "string \<Rightarrow> api" where
  "demoApi pid =
     \<lparr>api_publicKey = pid, api_title = ''T'', api_description = ''demo'',
      api_url = pid, api_paymentVault = ''vault''\<rparr>"

definition operationDoc :: "string \<Rightarrow> jsval" where
  "operationDoc operationId =
     JObj [(''paths'',
       JObj [(''/run'', JObj [(''post'', JObj [(''operationId'', JStr operationId)])])])]"

definition demoWorld :: "string \<Rightarrow> (string \<Rightarrow> jsval option) \<Rightarrow> thrown + jsval \<Rightarrow> world" where
  "demoWorld env fetch outcome =
     \<lparr>env_PORTALS_WHITELIST = Some env,
      getAPI = (\<lambda>pid. if pid = ''down'' then None else Some (demoApi pid)),
      axios_get = fetch,
      callAPI = (\<lambda>pid args operation. outcome),
      getAddress = ''Wa11et'',
      stringify = (\<lambda>v. ''[errors]''),
      ajv_compile_error =
        (\<lambda>compiled schema. case schema of
           JObj kvs \<Rightarrow>
             (case map_of kvs ''example'' of
                None \<Rightarrow> None
              | Some v \<Rightarrow> Some ''strict mode: unknown keyword: example'')
         | JBool b \<Rightarrow> None
         | _ \<Rightarrow> Some ''schema must be object or boolean''),
      ajv_violations =
        (\<lambda>compiled schema args.
           case args of JObj kvs \<Rightarrow> [] | _ \<Rightarrow> [JStr ''must be object''])\<rparr>"

text \<open>
  Schema fetches: every provider publishes a document with the given \<open>operationId\<close>;
  only the provider \<open>AAAA\<close> does; every fetch fails; every provider publishes the
  operation \<open>run\<close> with a body schema that carries an \<open>example\<close>.
\<close>

definition fetchAll :: "string \<Rightarrow> string \<Rightarrow> jsval option" where
  "fetchAll operationId url = Some (operationDoc operationId)"

definition fetchNone :: "string \<Rightarrow> jsval option" where
  "fetchNone url = None"

definition fetchAAAA :: "string \<Rightarrow> string \<Rightarrow> jsval option" where
  "fetchAAAA operationId url =
     (if url = ''AAAA/openapi.json'' then Some (operationDoc operationId) else None)"

definition exampleSchema :: jsval where
  "exampleSchema = JObj [(''type'', JStr ''object''), (''example'', JObj [])]"

definition fetchExample :: "string \<Rightarrow> jsval option" where
  "fetchExample url =
     Some (JObj [(''paths'',
       JObj [(''/run'', JObj [(''post'',
         JObj [(''operationId'', JStr ''run''),
               (''requestBody'', JObj [(''content'',
                  JObj [(''application/json'', JObj [(''schema'', exampleSchema)])])])])])])])"

definition demoTool :: "string \<Rightarrow> tool" where
  "demoTool operationId =
     \<lparr>tool_name = JStr operationId, tool_description = JStr ''demo'',
      tool_parameters = emptyObjectSchema\<rparr>"

definition exampleTool :: tool where
  "exampleTool =
     \<lparr>tool_name = JStr ''run'', tool_description = JStr ''demo'',
      tool_parameters = exampleSchema\<rparr>"

definition demoPortal :: "string \<Rightarrow> tool list option \<Rightarrow> PortalMetadata" where
  "demoPortal pid ts =
     \<lparr>pm_id = pid, pm_title = ''T'', pm_description = ''demo'', pm_url = pid,
      pm_paymentVault = ''vault'', pm_tools = ts\<rparr>"

text \<open>A manager whose Ajv instance has compiled nothing yet.\<close>

definition demoManager :: "snapshot \<Rightarrow> manager" where
  "demoManager s = \<lparr>portals = s, ajv_compiled = []\<rparr>"

definition emptyManager :: manager where
  "emptyManager = demoManager []"

section \<open>Facts about the string functions\<close>

lemma startsWith_iff: "startsWith s t \<longleftrightarrow> (\<exists>q. s = t @ q)"
  by (induction s t rule: startsWith.induct) auto

lemma includesStr_iff: "includesStr s t \<longleftrightarrow> (\<exists>p q. s = p @ t @ q)"
proof (induction s)
  case Nil
  then show ?case by auto
next
  case (Cons c s)
  show ?case
  proof
    assume "includesStr (c # s) t"
    then consider "startsWith (c # s) t" | "includesStr s t" by auto
    then show "\<exists>p q. c # s = p @ t @ q"
    proof cases
      case 1
      then obtain q where "c # s = t @ q" by (auto simp: startsWith_iff)
      then have "c # s = [] @ t @ q" by simp
      then show ?thesis by blast
    next
      case 2
      then obtain p q where "s = p @ t @ q" using Cons.IH by auto
      then have "c # s = (c # p) @ t @ q" by simp
      then show ?thesis by blast
    qed
  next
    assume "\<exists>p q. c # s = p @ t @ q"
    then obtain p q where pq: "c # s = p @ t @ q" by auto
    show "includesStr (c # s) t"
    proof (cases p)
      case Nil
      with pq have "\<exists>q. c # s = t @ q" by simp
      then have "startsWith (c # s) t" by (simp only: startsWith_iff)
      then show ?thesis by simp
    next
      case (Cons d p')
      with pq have "s = p' @ t @ q" by simp
      then show ?thesis using Cons.IH by auto
    qed
  qed
qed

lemma split_not_Nil: "split sep s \<noteq> []"
  by (induction s) (auto split: list.splits)

lemma filter_split_empty:
  "filter (\<lambda>piece. piece \<noteq> []) (split sep s) = [] \<longleftrightarrow> set s \<subseteq> {sep}"
  by (induction s) (auto split: list.splits simp: split_not_Nil)

section \<open>Facts about the naming rule\<close>

lemma isAlnum_not_underscore: "isAlnum c \<Longrightarrow> c \<noteq> CHR ''_''"
  by (auto simp: isAlnum_def)

lemma spec_mark_alnum: "isAlnum c \<Longrightarrow> spec_mark c = c"
  and spec_mark_other: "\<not> isAlnum c \<Longrightarrow> spec_mark c = CHR ''_''"
  by (simp_all add: spec_mark_def)

lemma squeeze_Cons_alnum: "isAlnum c \<Longrightarrow> spec_squeeze (c # cs) = c # spec_squeeze cs"
  by (cases cs) (auto dest: isAlnum_not_underscore)

text \<open>Squeezing swallows the marks of a whole run, as the greedy match does.\<close>

lemma squeeze_run:
  "spec_squeeze (CHR ''_'' # map spec_mark cs) =
     CHR ''_'' # spec_squeeze (map spec_mark (dropWhile (\<lambda>d. \<not> isAlnum d) cs))"
proof (induction cs)
  case Nil
  then show ?case by simp
next
  case (Cons d ds)
  show ?case
  proof (cases "isAlnum d")
    case True
    then show ?thesis
      by (simp add: spec_mark_alnum isAlnum_not_underscore)
  next
    case False
    then show ?thesis
      using Cons.IH by (simp add: spec_mark_other)
  qed
qed

lemma replace_is_squeeze: "replaceNonAlnumRuns s = spec_squeeze (map spec_mark s)"
proof (induction s rule: replaceNonAlnumRuns.induct)
  case 1
  then show ?case by simp
next
  case (2 c cs)
  show ?case
  proof (cases "isAlnum c")
    case True
    then show ?thesis
      using 2 by (simp add: spec_mark_alnum squeeze_Cons_alnum)
  next
    case False
    then show ?thesis
      using 2 squeeze_run [of cs] by (simp add: spec_mark_other)
  qed
qed

lemma endsWith_underscore: "endsWith xs ''_'' \<longleftrightarrow> xs \<noteq> [] \<and> last xs = CHR ''_''"
proof -
  have "xs \<noteq> [] \<Longrightarrow> drop (length xs - Suc 0) xs = [last xs]"
    by (metis One_nat_def append_butlast_last_id append_eq_conv_conj length_butlast)
  then show ?thesis
    by (auto simp: endsWith_def Suc_le_eq)
qed

lemma strip_is_spec: "stripEdgeUnderscores s = spec_stripTrailing (spec_stripLeading s)"
  by (cases s)
    (auto simp: stripEdgeUnderscores_def spec_stripTrailing_def spec_stripLeading_def
      endsWith_underscore butlast_conv_take)

lemma generateToolName_is_spec: "generateToolName title pid = spec_generateToolName title pid"
  by (simp add: generateToolName_def spec_generateToolName_def spec_slug_def
      replace_is_squeeze strip_is_spec)

text \<open>Equal names have equal suffixes, when the titles agree or both suffixes are full.\<close>

lemma generateToolName_suffix_inj:
  assumes "generateToolName t1 p1 = generateToolName t2 p2"
    and "t1 = t2 \<or> (4 \<le> length p1 \<and> 4 \<le> length p2)"
  shows "take 4 p1 = take 4 p2"
proof -
  let ?a = "''portal_'' @ stripEdgeUnderscores (replaceNonAlnumRuns (toLowerCase t1)) @ ''_''"
  let ?b = "''portal_'' @ stripEdgeUnderscores (replaceNonAlnumRuns (toLowerCase t2)) @ ''_''"
  have eq: "?a @ take 4 p1 = ?b @ take 4 p2"
    using assms(1) by (simp add: generateToolName_def)
  from assms(2) show ?thesis
  proof
    assume "t1 = t2"
    with eq show ?thesis by simp
  next
    assume "4 \<le> length p1 \<and> 4 \<le> length p2"
    then have "length (take 4 p1) = length (take 4 p2)" by simp
    with eq show ?thesis
      using append_eq_append_conv by blast
  qed
qed

lemmas naming_defs = generateToolName_def lowerChar_def isAlnum_def
  stripEdgeUnderscores_def

text \<open>The two characters outside ASCII that lower-casing turns into ASCII letters.\<close>

lemma toLowerCase_kelvin:
  "generateToolName [CHR 0xE2, CHR 0x84, CHR 0xAA] ''abcd'' = ''portal_k_abcd''"
  and toLowerCase_dotted_I:
  "generateToolName (''A'' @ [CHR 0xC4, CHR 0xB0] @ ''b'') ''abcd'' = ''portal_ai_b_abcd''"
  by (simp_all add: naming_defs)

section \<open>Facts about the refresh\<close>

lemma whitelist_empty_iff:
  "whitelist w = [] \<longleftrightarrow>
     (env_PORTALS_WHITELIST w = None
      \<or> (\<exists>s. env_PORTALS_WHITELIST w = Some s \<and> set s \<subseteq> {CHR '',''}))"
  by (auto simp: whitelist_def filter_split_empty split: option.splits)

lemma map_of_whitelistLoop:
  "map_of (whitelistLoop w ids acc) pid =
     (if pid \<in> set ids \<and> getAPI w pid \<noteq> None
      then map_option (\<lambda>a. fetchSchema w (newMetadata a)) (getAPI w pid)
      else map_of acc pid)"
  by (induction ids arbitrary: acc) (auto simp: update_conv' split: option.splits)

lemma distinct_whitelistLoop:
  "distinct (map fst acc) \<Longrightarrow> distinct (map fst (whitelistLoop w ids acc))"
  by (induction ids arbitrary: acc) (auto simp: distinct_update split: option.splits)

lemma keys_whitelistLoop:
  "fst ` set (whitelistLoop w ids acc) =
     fst ` set acc \<union> {pid \<in> set ids. getAPI w pid \<noteq> None}"
proof (induction ids arbitrary: acc)
  case Nil
  then show ?case by simp
next
  case (Cons pid ids)
  show ?case
  proof (cases "getAPI w pid")
    case None
    then show ?thesis
      using Cons.IH [of acc] by auto
  next
    case (Some a)
    have "fst ` set (whitelistLoop w (pid # ids) acc) =
            fst ` set (AList.update pid (fetchSchema w (newMetadata a)) acc)
            \<union> {p \<in> set ids. getAPI w p \<noteq> None}"
      using Some Cons.IH by simp
    also have "\<dots> = insert pid (fst ` set acc) \<union> {p \<in> set ids. getAPI w p \<noteq> None}"
      by (simp add: dom_update)
    finally show ?thesis
      using Some by auto
  qed
qed

lemma entry_whitelistLoop:
  assumes "(pid, portal) \<in> set (whitelistLoop w ids [])"
  shows "\<exists>a. getAPI w pid = Some a \<and> portal = fetchSchema w (newMetadata a)"
proof -
  have d: "distinct (map fst (whitelistLoop w ids []))"
    by (rule distinct_whitelistLoop) simp
  from assms d have "map_of (whitelistLoop w ids []) pid = Some portal"
    by simp
  then show ?thesis
    by (auto simp: map_of_whitelistLoop split: if_splits)
qed

lemma pm_tools_fetchSchema:
  "pm_tools m = None \<Longrightarrow> pm_tools (fetchSchema w m) \<noteq> Some []"
  by (auto simp: fetchSchema_def split: option.splits sum.splits)

lemma portalTools_not_Nil: "portalTools entry \<noteq> []"
  by (auto simp: portalTools_def split: prod.splits option.splits)

lemma portalTools_subset:
  "entry \<in> set (portals this) \<Longrightarrow> set (portalTools entry) \<subseteq> set (getTools this)"
  by (auto simp: getTools_def)

lemma refresh_ok:
  "refreshPortals w this = (Inr u, this') \<Longrightarrow>
     whitelist w \<noteq> [] \<and> portals this' = whitelistLoop w (whitelist w) []"
  by (auto simp: refreshPortals_def split: if_splits)

lemma refresh_failed:
  "refreshPortals w this = (Inl e, this') \<Longrightarrow> whitelist w = [] \<and> e = configError \<and> this' = this"
  by (auto simp: refreshPortals_def split: if_splits)

lemma collectTools_empty_paths:
  "map_of kvs ''paths'' = Some (JObj []) \<Longrightarrow> collectTools description (JObj kvs) = Inr []"
  by (simp add: collectTools_def js_or_def)

lemma whitelistLoop_cong:
  assumes "getAPI w1 = getAPI w2" and "\<And>m. fetchSchema w1 m = fetchSchema w2 m"
  shows "whitelistLoop w1 ids acc = whitelistLoop w2 ids acc"
  using assms by (induction ids arbitrary: acc) (auto split: option.splits)

section \<open>Facts about names and resolution\<close>

lemma portalTools_explicit:
  "pm_tools portal = Some ts \<Longrightarrow> ts \<noteq> [] \<Longrightarrow> portalTools (pid, portal) = map toolDescriptor ts"
  by (simp add: portalTools_def)

lemma portalTools_fallback:
  "pm_tools portal = None \<or> pm_tools portal = Some [] \<Longrightarrow>
     portalTools (pid, portal) = [fallbackDescriptor pid portal]"
  by (auto simp: portalTools_def)

lemma d_name_toolDescriptor: "d_name (toolDescriptor t) = tool_name t"
  by (simp add: toolDescriptor_def)

lemma d_name_fallbackDescriptor:
  "d_name (fallbackDescriptor pid portal) = JStr (generateToolName (pm_title portal) pid)"
  by (simp add: fallbackDescriptor_def)

text \<open>The names one entry contributes.\<close>

lemma names_portalTools:
  "map d_name (portalTools (pid, portal)) =
     (case pm_tools portal of
        None \<Rightarrow> [JStr (generateToolName (pm_title portal) pid)]
      | Some ts \<Rightarrow> if ts = [] then [JStr (generateToolName (pm_title portal) pid)]
                   else map tool_name ts)"
  by (auto simp: portalTools_def d_name_toolDescriptor d_name_fallbackDescriptor
      split: option.splits)

lemma find_SomeD: "find P xs = Some x \<Longrightarrow> x \<in> set xs \<and> P x"
  by (induction xs) (auto split: if_splits)

text \<open>A name that resolves is a name some entry contributes.\<close>

lemma resolved_name_listed:
  "findPortalAndToolByName s name = Some r \<Longrightarrow>
     JStr name \<in> set (map d_name (concat (map portalTools s)))"
proof (induction s)
  case Nil
  then show ?case by simp
next
  case (Cons e s)
  obtain pid portal where e: "e = (pid, portal)" by (cases e)
  show ?case
  proof (cases "JStr name \<in> set (map d_name (portalTools (pid, portal)))")
    case True
    then show ?thesis by (simp add: e)
  next
    case False
    then have "findPortalAndToolByName (e # s) name = findPortalAndToolByName s name"
      by (auto simp: e names_portalTools image_iff dest!: find_SomeD
          split: option.splits if_splits)
    then show ?thesis
      using Cons by simp
  qed
qed

lemma find_skips:
  "JStr name \<notin> set (map d_name (portalTools (pid, portal))) \<Longrightarrow>
     findPortalAndToolByName ((pid, portal) # s) name = findPortalAndToolByName s name"
  by (auto simp: names_portalTools image_iff dest!: find_SomeD split: option.splits if_splits)

lemma explicitNames_Cons:
  "explicitNames ((pid, portal) # s) =
     (case pm_tools portal of None \<Rightarrow> [] | Some ts \<Rightarrow> map tool_name ts) @ explicitNames s"
  by (simp add: explicitNames_def)

lemma fallbackNames_Cons:
  "fallbackNames ((pid, portal) # s) =
     (if pm_tools portal = None \<or> pm_tools portal = Some []
      then [generateToolName (pm_title portal) pid] else []) @ fallbackNames s"
  by (simp add: fallbackNames_def toolless_def)

lemma names_Cons:
  "map d_name (concat (map portalTools ((pid, portal) # s))) =
     (if pm_tools portal = None \<or> pm_tools portal = Some []
      then [JStr (generateToolName (pm_title portal) pid)]
      else (case pm_tools portal of None \<Rightarrow> [] | Some ts \<Rightarrow> map tool_name ts))
     @ map d_name (concat (map portalTools s))"
  by (auto simp: names_portalTools split: option.splits)

lemma set_names:
  "set (map d_name (concat (map portalTools s))) =
     set (explicitNames s) \<union> JStr ` set (fallbackNames s)"
proof (induction s)
  case Nil
  then show ?case by (simp add: explicitNames_def fallbackNames_def toolless_def)
next
  case (Cons e s)
  obtain pid portal where e: "e = (pid, portal)" by (cases e)
  show ?case
    unfolding e names_Cons explicitNames_Cons fallbackNames_Cons
    using Cons.IH by (auto split: option.splits)
qed

lemma distinct_names_iff:
  "distinct (map d_name (concat (map portalTools s))) \<longleftrightarrow>
     distinct (explicitNames s) \<and> distinct (fallbackNames s)
     \<and> set (explicitNames s) \<inter> JStr ` set (fallbackNames s) = {}"
proof (induction s)
  case Nil
  then show ?case by (simp add: explicitNames_def fallbackNames_def toolless_def)
next
  case (Cons e s)
  obtain pid portal where e: "e = (pid, portal)" by (cases e)
  show ?case
  proof (cases "pm_tools portal = None \<or> pm_tools portal = Some []")
    case True
    then show ?thesis
      unfolding e names_Cons explicitNames_Cons fallbackNames_Cons
      using Cons.IH set_names [of s] by (auto split: option.splits)
  next
    case False
    then obtain ts where ts: "pm_tools portal = Some ts" "ts \<noteq> []" by auto
    show ?thesis
      unfolding e names_Cons explicitNames_Cons fallbackNames_Cons
      using Cons.IH set_names [of s] ts by (auto split: option.splits)
  qed
qed

lemma distinct_generated:
  assumes "distinct (map (take 4 \<circ> fst) l)" and "\<forall>entry \<in> set l. 4 \<le> length (fst entry)"
  shows "distinct (map (\<lambda>(pid, portal). generateToolName (pm_title portal) pid) l)"
  using assms
proof (induction l)
  case Nil
  then show ?case by simp
next
  case (Cons e l)
  obtain pid portal where e: "e = (pid, portal)" by (cases e)
  have "generateToolName (pm_title portal) pid
          \<notin> (\<lambda>(pid, portal). generateToolName (pm_title portal) pid) ` set l"
  proof
    assume "generateToolName (pm_title portal) pid
          \<in> (\<lambda>(pid, portal). generateToolName (pm_title portal) pid) ` set l"
    then obtain pid' portal' where other: "(pid', portal') \<in> set l"
      and eq: "generateToolName (pm_title portal) pid = generateToolName (pm_title portal') pid'"
      by auto
    have "4 \<le> length pid \<and> 4 \<le> length pid'"
      using Cons.prems(2) other by (auto simp: e)
    then have "take 4 pid = take 4 pid'"
      using generateToolName_suffix_inj [OF eq] by simp
    then have "take 4 pid \<in> (take 4 \<circ> fst) ` set l"
      using other by force
    then show False
      using Cons.prems(1) by (simp add: e)
  qed
  then show ?case
    using Cons by (simp add: e)
qed

lemma distinct_fallbackNames:
  assumes "distinct (map (take 4 \<circ> fst) (toolless s))"
    and "\<forall>entry \<in> set (toolless s). 4 \<le> length (fst entry)"
  shows "distinct (fallbackNames s)"
  unfolding fallbackNames_def using assms by (rule distinct_generated)

section \<open>Facts about callTool\<close>

lemma refreshPortals_cong:
  assumes "env_PORTALS_WHITELIST w1 = env_PORTALS_WHITELIST w2"
    and "getAPI w1 = getAPI w2" and "axios_get w1 = axios_get w2"
  shows "refreshPortals w1 this = refreshPortals w2 this"
proof -
  have "fetchSchema w1 m = fetchSchema w2 m" for m
    by (simp add: fetchSchema_def assms(3))
  then have "whitelistLoop w1 ids [] = whitelistLoop w2 ids []" for ids
    using assms(2) by (rule whitelistLoop_cong [rotated])
  moreover have "whitelist w1 = whitelist w2"
    by (simp add: whitelist_def assms(1))
  ultimately show ?thesis
    by (simp add: refreshPortals_def)
qed

lemma callTool_resolved:
  assumes "refreshPortals w this = (Inr u, this')"
    and "findPortalAndToolByName (portals this') name = Some (portal, tool)"
  shows "callTool w name args this =
     (case checkParameters w tool args this' of
        (Some e, this'') \<Rightarrow> (Inl e, this'')
      | (None, this'') \<Rightarrow> (dispatch w portal tool args, this''))"
  using assms by (simp add: callTool_def)


lemma refresh_ajv_upd:
  "refreshPortals (w\<lparr>ajv_compile_error := c, ajv_violations := v\<rparr>) this = refreshPortals w this"
  by (rule refreshPortals_cong) simp_all


lemma callFailed_address: "getAddress w1 = getAddress w2 \<Longrightarrow> callFailed w1 e = callFailed w2 e"
  by (cases e) simp_all

lemma dispatch_ajv_upd:
  "dispatch (w\<lparr>ajv_compile_error := c, ajv_violations := v\<rparr>) portal tool args =
     dispatch w portal tool args"
  using callFailed_address [of "w\<lparr>ajv_compile_error := c, ajv_violations := v\<rparr>" w]
  by (simp add: dispatch_def split: sum.splits)




lemma checkParameters_skipped:
  assumes "tool = None \<or> (\<exists>t. tool = Some t \<and> \<not> truthy (tool_parameters t))"
  shows "checkParameters w tool args this = (None, this)"
  using assms by (auto simp: checkParameters_def)


lemma refreshed_tools_nonempty:
  assumes "refreshPortals w this = (Inr u, this')" and "(pid, portal) \<in> set (portals this')"
  shows "pm_tools portal \<noteq> Some []"
proof -
  from assms obtain a where "portal = fetchSchema w (newMetadata a)"
    using entry_whitelistLoop [of pid portal w "whitelist w"] by (auto simp: refresh_ok)
  moreover have "pm_tools (newMetadata a) = None"
    by (simp add: newMetadata_def)
  ultimately show ?thesis
    using pm_tools_fetchSchema by simp
qed

lemma message_contains:
  "includesStr (insufficientSolMessage a) a"
  "includesStr (insufficientSolMessage a) ''After funding, retry this request.''"
  "includesStr (insufficientUsdcMessage a) a"
  "includesStr (insufficientUsdcMessage a) ''After funding, retry this request.''"
  unfolding includesStr_iff insufficientSolMessage_def insufficientUsdcMessage_def
  by (metis append.assoc append_Nil2)+

text \<open>Resolution is a first match: a prefix of the snapshot that exposes the name decides.\<close>

lemma find_None_iff_unexposed:
  "findPortalAndToolByName s name = None \<longleftrightarrow> JStr name \<notin> set (exposedNames s)"
proof
  assume "findPortalAndToolByName s name = None"
  then show "JStr name \<notin> set (exposedNames s)"
  proof (induction s)
    case Nil
    then show ?case by (simp add: exposedNames_def)
  next
    case (Cons e s)
    obtain pid portal where e: "e = (pid, portal)" by (cases e)
    have head: "JStr name \<notin> set (map d_name (portalTools (pid, portal)))"
      using Cons.prems
      by (auto simp: e names_portalTools find_None_iff split: option.splits if_splits)
    then have "findPortalAndToolByName s name = None"
      using Cons.prems find_skips [of name pid portal s] by (simp add: e)
    then show ?case
      using Cons.IH head by (simp add: exposedNames_def e)
  qed
next
  assume "JStr name \<notin> set (exposedNames s)"
  then show "findPortalAndToolByName s name = None"
    using resolved_name_listed [of s name] by (cases "findPortalAndToolByName s name")
      (auto simp: exposedNames_def)
qed

lemma find_append_unexposed:
  "JStr name \<notin> set (exposedNames pre) \<Longrightarrow>
     findPortalAndToolByName (pre @ post) name = findPortalAndToolByName post name"
proof (induction pre)
  case Nil
  then show ?case by simp
next
  case (Cons e pre)
  obtain pid portal where e: "e = (pid, portal)" by (cases e)
  from Cons.prems have head: "JStr name \<notin> set (map d_name (portalTools (pid, portal)))"
    and rest: "JStr name \<notin> set (exposedNames pre)"
    by (simp_all add: exposedNames_def e)
  from head have "findPortalAndToolByName (e # pre @ post) name =
      findPortalAndToolByName (pre @ post) name"
    unfolding e by (rule find_skips)
  then show ?case
    using Cons.IH [OF rest] by simp
qed

lemma find_append_exposed:
  "JStr name \<in> set (exposedNames pre) \<Longrightarrow>
     findPortalAndToolByName (pre @ post) name = findPortalAndToolByName pre name"
proof (induction pre)
  case Nil
  then show ?case by (simp add: exposedNames_def)
next
  case (Cons e pre)
  obtain pid portal where e: "e = (pid, portal)" by (cases e)
  show ?case
  proof (cases "JStr name \<in> set (map d_name (portalTools (pid, portal)))")
    case True
    then show ?thesis
      by (auto simp: e names_portalTools find_None_iff image_iff split: option.splits if_splits)
  next
    case False
    then have "findPortalAndToolByName (e # pre @ post) name =
        findPortalAndToolByName (pre @ post) name"
      and "findPortalAndToolByName (e # pre) name = findPortalAndToolByName pre name"
      unfolding e by (rule find_skips)+
    moreover have "JStr name \<in> set (exposedNames pre)"
      using Cons.prems False by (simp add: exposedNames_def e)
    ultimately show ?thesis
      using Cons.IH by simp
  qed
qed

lemma find_first_tool:
  "P t \<Longrightarrow> \<forall>x \<in> set before. \<not> P x \<Longrightarrow> find P (before @ t # after) = Some t"
  by (induction before) auto

lemma find_head_explicit:
  assumes "pm_tools portal = Some (before @ t # after)" and "tool_name t = JStr name"
    and "JStr name \<notin> set (map tool_name before)"
  shows "findPortalAndToolByName ((pid, portal) # post) name = Some (portal, Some t)"
proof -
  have "\<forall>x \<in> set before. \<not> tool_name x = JStr name"
    using assms(3) by force
  with assms(2) have "find (\<lambda>x. tool_name x = JStr name) (before @ t # after) = Some t"
    by (rule find_first_tool)
  then show ?thesis
    using assms(1) by simp
qed

lemma find_head_fallback:
  assumes "pm_tools portal = None \<or> pm_tools portal = Some []"
  shows "findPortalAndToolByName ((pid, portal) # post) (generateToolName (pm_title portal) pid) =
     Some (portal, None)"
  using assms by auto

lemma callFailed_nullish: "callFailed w Nullish = Uncaught TypeError"
  by simp

lemma filter_key_unique:
  "distinct (map fst s) \<Longrightarrow> (k, v) \<in> set s \<Longrightarrow> filter (\<lambda>entry. fst entry = k) s = [(k, v)]"
proof (induction s)
  case Nil
  then show ?case by simp
next
  case (Cons e s)
  show ?case
  proof (cases "fst e = k")
    case True
    have "fst e \<notin> fst ` set s"
      using Cons.prems(1) by simp
    then have "\<forall>entry \<in> set s. \<not> fst entry = k"
      using True by (metis imageI)
    then have "filter (\<lambda>entry. fst entry = k) s = []"
      by (simp only: filter_False)
    moreover have "e = (k, v)"
      using True Cons.prems by (cases e) force
    ultimately show ?thesis by simp
  next
    case False
    then show ?thesis
      using Cons by auto
  qed
qed

text \<open>Every tool that the walk over a document collects has \<open>parameters\<close> that pass the test.\<close>

lemma operationTool_truthy:
  "operationTool description method op = Inr (Some t) \<Longrightarrow> truthy (tool_parameters t)"
  by (auto simp: operationTool_def js_or_def emptyObjectSchema_def
      split: if_splits sum.splits)

lemma methodLoop_truthy:
  "methodLoop description methods acc = Inr ts \<Longrightarrow>
     \<forall>t \<in> set acc. truthy (tool_parameters t) \<Longrightarrow> \<forall>t \<in> set ts. truthy (tool_parameters t)"
proof (induction description methods acc rule: methodLoop.induct)
  case (1 description tools)
  then show ?case by simp
next
  case (2 description key operation rest tools)
  show ?case
  proof (cases "operationTool description key operation")
    case (Inl e)
    with 2 show ?thesis by simp
  next
    case (Inr r)
    show ?thesis
    proof (cases r)
      case None
      with 2 Inr show ?thesis by simp
    next
      case (Some t)
      then have "truthy (tool_parameters t)"
        using Inr operationTool_truthy by simp
      with 2 Inr Some show ?thesis by simp
    qed
  qed
qed

lemma pathLoop_truthy:
  "pathLoop description paths acc = Inr ts \<Longrightarrow>
     \<forall>t \<in> set acc. truthy (tool_parameters t) \<Longrightarrow> \<forall>t \<in> set ts. truthy (tool_parameters t)"
proof (induction description paths acc rule: pathLoop.induct)
  case (1 description tools)
  then show ?case by simp
next
  case (2 description pathKey pathValue rest tools)
  show ?case
  proof (cases "entries pathValue")
    case (Inl e)
    with 2 show ?thesis by simp
  next
    case (Inr methods)
    show ?thesis
    proof (cases "methodLoop description methods tools")
      case (Inl e)
      with 2 Inr show ?thesis by simp
    next
      case inner: (Inr tools')
      have "\<forall>t \<in> set tools'. truthy (tool_parameters t)"
        using inner "2.prems"(2) by (rule methodLoop_truthy)
      with 2 Inr inner show ?thesis by simp
    qed
  qed
qed

lemma fetchSchema_truthy:
  assumes "pm_tools m = None" and "pm_tools (fetchSchema w m) = Some ts"
  shows "\<forall>t \<in> set ts. truthy (tool_parameters t)"
proof -
  from assms obtain doc where "collectTools (pm_description m) doc = Inr ts"
    by (auto simp: fetchSchema_def split: option.splits sum.splits if_splits)
  then obtain paths where "pathLoop (pm_description m) paths [] = Inr ts"
    by (auto simp: collectTools_def split: sum.splits)
  then show ?thesis
    by (rule pathLoop_truthy) simp
qed

lemma refreshed_truthy:
  assumes "refreshPortals w this = (Inr u, this')" and "(pid, portal) \<in> set (portals this')"
    and "pm_tools portal = Some ts"
  shows "\<forall>t \<in> set ts. truthy (tool_parameters t)"
proof -
  from assms(1,2) obtain a where "portal = fetchSchema w (newMetadata a)"
    using entry_whitelistLoop [of pid portal w "whitelist w"] by (auto simp: refresh_ok)
  moreover have "pm_tools (newMetadata a) = None"
    by (simp add: newMetadata_def)
  ultimately show ?thesis
    using assms(3) fetchSchema_truthy by blast
qed

lemma exposes_iff:
  "exposes (pid, portal) name \<longleftrightarrow>
     (case pm_tools portal of
        None \<Rightarrow> generateToolName (pm_title portal) pid = name
      | Some ts \<Rightarrow> if ts = [] then generateToolName (pm_title portal) pid = name
                   else JStr name \<in> set (map tool_name ts))"
  by (auto simp: exposes_def names_portalTools split: option.splits)

lemma find_append_list:
  "find P (xs @ ys) = (case find P xs of None \<Rightarrow> find P ys | Some x \<Rightarrow> Some x)"
  by (induction xs) auto

text \<open>Resolution goes to the first entry that exposes the name.\<close>

lemma resolve_first:
  assumes "firstExposing s name = Some (pid, portal)"
  shows "(pm_tools portal = None \<or> pm_tools portal = Some [] \<longrightarrow>
            findPortalAndToolByName s name = Some (portal, None))
       \<and> (\<forall>ts. pm_tools portal = Some ts \<and> ts \<noteq> [] \<longrightarrow>
            (\<exists>t. findPortalAndToolByName s name = Some (portal, Some t)
                 \<and> t \<in> set ts \<and> tool_name t = JStr name))"
  using assms
proof (induction s)
  case Nil
  then show ?case by (simp add: firstExposing_def)
next
  case (Cons e s)
  obtain pid' portal' where e: "e = (pid', portal')" by (cases e)
  show ?case
  proof (cases "exposes e name")
    case True
    then have here: "(pid, portal) = (pid', portal')"
      using Cons.prems by (simp add: firstExposing_def e)
    have generated: "findPortalAndToolByName (e # s) name = Some (portal, None)"
      if "pm_tools portal = None \<or> pm_tools portal = Some []"
      using that True here by (auto simp: e exposes_iff)
    have explicit: "\<exists>t. findPortalAndToolByName (e # s) name = Some (portal, Some t)
                 \<and> t \<in> set ts \<and> tool_name t = JStr name"
      if "pm_tools portal = Some ts" "ts \<noteq> []" for ts
    proof -
      have "\<exists>t \<in> set ts. tool_name t = JStr name"
        using that True here by (auto simp: e exposes_iff)
      then obtain t where t: "find (\<lambda>x. tool_name x = JStr name) ts = Some t"
        by (cases "find (\<lambda>x. tool_name x = JStr name) ts") (auto simp: find_None_iff)
      then have "t \<in> set ts \<and> tool_name t = JStr name"
        by (rule find_SomeD)
      moreover have "findPortalAndToolByName (e # s) name = Some (portal, Some t)"
        using that t here by (simp add: e)
      ultimately show ?thesis by blast
    qed
    show ?thesis
      using generated explicit by blast
  next
    case False
    then have "firstExposing s name = Some (pid, portal)"
      using Cons.prems by (simp add: firstExposing_def)
    moreover have "findPortalAndToolByName (e # s) name = findPortalAndToolByName s name"
      using False unfolding e exposes_def by (rule find_skips)
    ultimately show ?thesis
      using Cons.IH by simp
  qed
qed

lemma firstExposing_split:
  assumes "exposes (pid, portal) name"
  shows "firstExposing (pre @ (pid, portal) # post) name =
     (case find (\<lambda>entry. exposes entry name) pre of
        None \<Rightarrow> Some (pid, portal)
      | Some e \<Rightarrow> Some e)"
  using assms by (simp add: firstExposing_def find_append_list split: option.splits)

lemma exposing_explicit_listed:
  assumes "(pid', portal') \<in> set pre" and "exposes (pid', portal') name"
    and "pm_tools portal' = Some ts" and "ts \<noteq> []"
  shows "JStr name \<in> set (explicitNames pre)"
proof -
  have "JStr name \<in> set (map tool_name ts)"
    using assms(2-4) by (simp add: exposes_iff)
  then show ?thesis
    using assms(1,3) by (force simp: explicitNames_def)
qed

section \<open>Runs of the example worlds\<close>

lemma demoManager_simps [simp]:
  "portals (demoManager s) = s"
  "ajv_compiled (demoManager s) = []"
  "(demoManager s)\<lparr>portals := s'\<rparr> = demoManager s'"
  by (simp_all add: demoManager_def)

lemmas demo_defs = refreshPortals_def whitelist_def demoWorld_def demoApi_def fetchSchema_def
  newMetadata_def schemaUrl_def endsWith_def collectTools_def operationDoc_def operationTool_def
  js_or_def optProp_def fetchAAAA_def fetchAll_def fetchNone_def fetchExample_def demoTool_def
  exampleTool_def exampleSchema_def demoPortal_def emptyManager_def demoManager_def

lemma demo_name: "generateToolName ''T'' ''BBBB'' = ''portal_t_BBBB''"
  by (simp add: naming_defs)

lemma demo_same_operation:
  "refreshPortals (demoWorld ''AAAA,BBBB'' (fetchAll ''run'') outcome)
     emptyManager =
   (Inr (), (demoManager [(''AAAA'', demoPortal ''AAAA'' (Some [demoTool ''run''])),
                        (''BBBB'', demoPortal ''BBBB'' (Some [demoTool ''run'']))]))"
  by (simp add: demo_defs)

lemma demo_shadowed:
  "refreshPortals (demoWorld ''AAAA,BBBB'' (fetchAAAA ''portal_t_BBBB'') outcome) emptyManager =
   (Inr (), (demoManager [(''AAAA'', demoPortal ''AAAA'' (Some [demoTool ''portal_t_BBBB''])),
                        (''BBBB'', demoPortal ''BBBB'' None)]))"
  by (simp add: demo_defs)

lemma demo_one_down:
  "refreshPortals (demoWorld ''AAAA,down,BBBB'' (fetchAAAA ''run'') outcome) emptyManager =
   (Inr (), (demoManager [(''AAAA'', demoPortal ''AAAA'' (Some [demoTool ''run''])),
                        (''BBBB'', demoPortal ''BBBB'' None)]))"
  by (simp add: demo_defs)

lemma demo_toolless:
  "refreshPortals (demoWorld ''BBBB'' fetchNone outcome) emptyManager =
   (Inr (), (demoManager [(''BBBB'', demoPortal ''BBBB'' None)]))"
  by (simp add: demo_defs)


lemma demo_shadow_later:
  "refreshPortals (demoWorld ''BBBB,AAAA'' (fetchAAAA ''portal_t_BBBB'') outcome) emptyManager =
   (Inr (), demoManager [(''BBBB'', demoPortal ''BBBB'' None),
                         (''AAAA'', demoPortal ''AAAA'' (Some [demoTool ''portal_t_BBBB'']))])"
  by (simp add: demo_defs)

section \<open>Claims about the refresh\<close>

text \<open>
  C1. After a refresh that did not raise, the keys of the snapshot are exactly the
  whitelisted ids whose \<open>getAPI\<close> succeeded, each once; every entry is the metadata of
  its provider after the schema step; and the part of the \<open>getTools\<close> list that comes
  from an entry is never empty: it is the list of the entry's explicit tools when there
  are any, and otherwise the single synthesized descriptor.
\<close>

theorem refreshPortals_reachable_providers:
  assumes "refreshPortals w this = (Inr u, this')"
  shows "fst ` set (portals this') = {pid \<in> set (whitelist w). getAPI w pid \<noteq> None}
       \<and> distinct (map fst (portals this'))
       \<and> getTools this' = concat (map portalTools (portals this'))
       \<and> (\<forall>entry \<in> set (portals this').
            (\<exists>a. getAPI w (fst entry) = Some a \<and> snd entry = fetchSchema w (newMetadata a))
          \<and> portalTools entry \<noteq> []
          \<and> set (portalTools entry) \<subseteq> set (getTools this')
          \<and> (case pm_tools (snd entry) of
                None \<Rightarrow> portalTools entry = [fallbackDescriptor (fst entry) (snd entry)]
              | Some ts \<Rightarrow> ts \<noteq> [] \<and> portalTools entry = map toolDescriptor ts))"
proof -
  from assms have snap: "portals this' = whitelistLoop w (whitelist w) []"
    by (simp add: refresh_ok)
  have keys: "fst ` set (portals this') = {pid \<in> set (whitelist w). getAPI w pid \<noteq> None}"
    by (simp add: snap keys_whitelistLoop)
  have dist: "distinct (map fst (portals this'))"
    unfolding snap by (rule distinct_whitelistLoop) simp
  have each: "(\<exists>a. getAPI w (fst entry) = Some a \<and> snd entry = fetchSchema w (newMetadata a))
          \<and> portalTools entry \<noteq> []
          \<and> set (portalTools entry) \<subseteq> set (getTools this')
          \<and> (case pm_tools (snd entry) of
                None \<Rightarrow> portalTools entry = [fallbackDescriptor (fst entry) (snd entry)]
              | Some ts \<Rightarrow> ts \<noteq> [] \<and> portalTools entry = map toolDescriptor ts)"
    if mem: "entry \<in> set (portals this')" for entry
  proof -
    obtain pid portal where entry: "entry = (pid, portal)"
      by (cases entry)
    from mem obtain a where a: "getAPI w pid = Some a" "portal = fetchSchema w (newMetadata a)"
      using entry_whitelistLoop [of pid portal w "whitelist w"] by (auto simp: snap entry)
    have "pm_tools (newMetadata a) = None"
      by (simp add: newMetadata_def)
    then have nonempty: "pm_tools portal \<noteq> Some []"
      using a(2) pm_tools_fetchSchema by simp
    have shape: "case pm_tools (snd entry) of
                None \<Rightarrow> portalTools entry = [fallbackDescriptor (fst entry) (snd entry)]
              | Some ts \<Rightarrow> ts \<noteq> [] \<and> portalTools entry = map toolDescriptor ts"
      using nonempty by (auto simp: portalTools_def entry split: option.splits)
    have origin: "\<exists>a. getAPI w (fst entry) = Some a \<and> snd entry = fetchSchema w (newMetadata a)"
      using a by (simp add: entry)
    show ?thesis
      using origin shape portalTools_not_Nil [of entry] portalTools_subset [OF mem]
      by blast
  qed
  show ?thesis
    using keys dist each by (simp add: getTools_def)
qed

theorem refreshPortals_reachable_providers_witness:
  "refreshPortals (demoWorld ''AAAA,down,BBBB'' (fetchAAAA ''run'') (Inr JNull)) emptyManager =
     (Inr (), (demoManager [(''AAAA'', demoPortal ''AAAA'' (Some [demoTool ''run''])),
                          (''BBBB'', demoPortal ''BBBB'' None)]))
   \<and> whitelist (demoWorld ''AAAA,down,BBBB'' (fetchAAAA ''run'') (Inr JNull)) =
       [''AAAA'', ''down'', ''BBBB'']
   \<and> {pid \<in> set (whitelist (demoWorld ''AAAA,down,BBBB'' (fetchAAAA ''run'') (Inr JNull))).
        getAPI (demoWorld ''AAAA,down,BBBB'' (fetchAAAA ''run'') (Inr JNull)) pid \<noteq> None} =
       {''AAAA'', ''BBBB''}
   \<and> map d_name (getTools (demoManager [(''AAAA'', demoPortal ''AAAA'' (Some [demoTool ''run''])),
                                      (''BBBB'', demoPortal ''BBBB'' None)])) =
       [JStr ''run'', JStr ''portal_t_BBBB'']"
proof -
  have run: "refreshPortals (demoWorld ''AAAA,down,BBBB'' (fetchAAAA ''run'') (Inr JNull))
      emptyManager =
     (Inr (), (demoManager [(''AAAA'', demoPortal ''AAAA'' (Some [demoTool ''run''])),
                          (''BBBB'', demoPortal ''BBBB'' None)]))"
    by (rule demo_one_down)
  have wl: "whitelist (demoWorld ''AAAA,down,BBBB'' (fetchAAAA ''run'') (Inr JNull)) =
       [''AAAA'', ''down'', ''BBBB'']"
    by (simp add: whitelist_def demoWorld_def)
  have names: "map d_name (getTools (demoManager [(''AAAA'', demoPortal ''AAAA'' (Some [demoTool ''run''])),
                                      (''BBBB'', demoPortal ''BBBB'' None)])) =
       [JStr ''run'', JStr ''portal_t_BBBB'']"
    by (simp add: getTools_def portalTools_def demoPortal_def demoTool_def toolDescriptor_def
        fallbackDescriptor_def demo_name)
  show ?thesis
    using refreshPortals_reachable_providers [OF run] run wl names
    by simp
qed

text \<open>
  C6. The refresh raises the configuration error, and leaves the manager as it was,
  exactly when the whitelist is empty, which is the case when the environment variable
  is not set or holds nothing but commas (the empty string included). With a whitelist
  that is not empty the refresh returns, whatever \<open>getAPI\<close> and the schema fetch do.
\<close>

theorem refreshPortals_config_error:
  "(whitelist w = [] \<longleftrightarrow>
      env_PORTALS_WHITELIST w = None
      \<or> (\<exists>s. env_PORTALS_WHITELIST w = Some s \<and> set s \<subseteq> {CHR '',''}))
   \<and> (whitelist w = [] \<longrightarrow> refreshPortals w this = (Inl configError, this))
   \<and> (whitelist w \<noteq> [] \<longrightarrow>
        refreshPortals w this =
          (Inr (), this\<lparr>portals := whitelistLoop w (whitelist w) []\<rparr>))"
  using whitelist_empty_iff [of w] by (simp add: refreshPortals_def)

theorem refreshPortals_config_error_witness:
  "whitelist (demoWorld '',,'' fetchNone (Inr JNull)) = []
   \<and> refreshPortals (demoWorld '',,'' fetchNone (Inr JNull))
        (demoManager [(''AAAA'', demoPortal ''AAAA'' None)]) =
       (Inl configError, (demoManager [(''AAAA'', demoPortal ''AAAA'' None)]))
   \<and> whitelist (demoWorld '',down,'' fetchNone (Inr JNull)) \<noteq> []
   \<and> refreshPortals (demoWorld '',down,'' fetchNone (Inr JNull))
        (demoManager [(''AAAA'', demoPortal ''AAAA'' None)]) =
       (Inr (), (demoManager []))"
proof -
  have e: "whitelist (demoWorld '',,'' fetchNone (Inr JNull)) = []"
    by (simp add: whitelist_def demoWorld_def)
  have n: "whitelist (demoWorld '',down,'' fetchNone (Inr JNull)) = [''down'']"
    by (simp add: whitelist_def demoWorld_def)
  have g: "getAPI (demoWorld '',down,'' fetchNone (Inr JNull)) ''down'' = None"
    by (simp add: demoWorld_def)
  show ?thesis
    using e n g
      refreshPortals_config_error [of "demoWorld '',,'' fetchNone (Inr JNull)"
        "(demoManager [(''AAAA'', demoPortal ''AAAA'' None)])"]
      refreshPortals_config_error [of "demoWorld '',down,'' fetchNone (Inr JNull)"
        "(demoManager [(''AAAA'', demoPortal ''AAAA'' None)])"]
    by simp
qed

text \<open>
  C10. When the refresh raises, the error is the configuration error and the manager,
  hence the snapshot published before, is the one the refresh started from; the same
  holds for a \<open>callTool\<close> stopped by its refresh.
\<close>

theorem refreshPortals_failure_keeps_snapshot:
  assumes "refreshPortals w this = (Inl e, this')"
  shows "this' = this \<and> e = configError \<and> callTool w name args this = (Inl e, this)"
  using assms refresh_failed [OF assms] by (simp add: callTool_def)

theorem refreshPortals_failure_keeps_snapshot_witness:
  "refreshPortals (demoWorld [] fetchNone (Inr JNull))
        (demoManager [(''AAAA'', demoPortal ''AAAA'' None)]) =
       (Inl configError, (demoManager [(''AAAA'', demoPortal ''AAAA'' None)]))
   \<and> callTool (demoWorld [] fetchNone (Inr JNull)) ''portal_t_AAAA'' (JObj [])
        (demoManager [(''AAAA'', demoPortal ''AAAA'' None)]) =
       (Inl configError, (demoManager [(''AAAA'', demoPortal ''AAAA'' None)]))"
proof -
  have h: "refreshPortals (demoWorld [] fetchNone (Inr JNull))
        (demoManager [(''AAAA'', demoPortal ''AAAA'' None)]) =
       (Inl configError, (demoManager [(''AAAA'', demoPortal ''AAAA'' None)]))"
    by (simp add: refreshPortals_def whitelist_def demoWorld_def)
  show ?thesis
    using h refreshPortals_failure_keeps_snapshot [OF h, of "''portal_t_AAAA''" "JObj []"]
    by simp
qed

text \<open>
  C8. Take any world and any URL, and compare the world in which the fetch of that URL
  fails with the world in which it returns a document whose \<open>paths\<close> is the empty
  object. Every refresh gives the same result in both, so \<open>getTools\<close> lists the same
  descriptors. For a whitelisted provider whose \<open>getAPI\<close> succeeds and whose schema is
  at that URL, the refresh returns in both worlds, the snapshot holds under the id of
  the provider the metadata without tools, as its only entry for that id, and what
  \<open>getTools\<close> lists for that entry is the single synthesized descriptor.
\<close>

theorem schema_failure_equals_empty_paths:
  assumes "map_of kvs ''paths'' = Some (JObj [])"
  shows "refreshPortals (w\<lparr>axios_get := (axios_get w)(url \<mapsto> JObj kvs)\<rparr>) this =
           refreshPortals (w\<lparr>axios_get := (axios_get w)(url := None)\<rparr>) this
       \<and> getTools (snd (refreshPortals (w\<lparr>axios_get := (axios_get w)(url \<mapsto> JObj kvs)\<rparr>) this)) =
           getTools (snd (refreshPortals (w\<lparr>axios_get := (axios_get w)(url := None)\<rparr>) this))
       \<and> (pid \<in> set (whitelist w) \<and> getAPI w pid = Some a \<and> schemaUrl (api_url a) = url \<longrightarrow>
            fst (refreshPortals (w\<lparr>axios_get := (axios_get w)(url := None)\<rparr>) this) = Inr ()
          \<and> filter (\<lambda>entry. fst entry = pid)
               (portals (snd (refreshPortals (w\<lparr>axios_get := (axios_get w)(url := None)\<rparr>) this))) =
              [(pid, newMetadata a)]
          \<and> pm_tools (newMetadata a) = None
          \<and> portalTools (pid, newMetadata a) = [fallbackDescriptor pid (newMetadata a)]
          \<and> fallbackDescriptor pid (newMetadata a) \<in>
              set (getTools (snd (refreshPortals (w\<lparr>axios_get := (axios_get w)(url := None)\<rparr>) this))))"
proof -
  let ?failing = "w\<lparr>axios_get := (axios_get w)(url := None)\<rparr>"
  let ?empty = "w\<lparr>axios_get := (axios_get w)(url \<mapsto> JObj kvs)\<rparr>"
  have same: "fetchSchema ?failing m = fetchSchema ?empty m" for m
    by (simp add: fetchSchema_def collectTools_empty_paths [OF assms])
  have loop: "whitelistLoop ?failing ids [] = whitelistLoop ?empty ids []" for ids
    by (rule whitelistLoop_cong) (simp_all add: same)
  have wl: "whitelist ?failing = whitelist w" "whitelist ?empty = whitelist w"
    by (simp_all add: whitelist_def)
  have refresh: "refreshPortals ?empty this = refreshPortals ?failing this"
    by (simp add: refreshPortals_def wl loop)
  have stored: "fst (refreshPortals ?failing this) = Inr ()
          \<and> filter (\<lambda>entry. fst entry = pid) (portals (snd (refreshPortals ?failing this))) =
              [(pid, newMetadata a)]
          \<and> pm_tools (newMetadata a) = None
          \<and> portalTools (pid, newMetadata a) = [fallbackDescriptor pid (newMetadata a)]
          \<and> fallbackDescriptor pid (newMetadata a) \<in> set (getTools (snd (refreshPortals ?failing this)))"
    if mem: "pid \<in> set (whitelist w)" and api: "getAPI w pid = Some a"
      and at: "schemaUrl (api_url a) = url"
  proof -
    let ?s = "whitelistLoop ?failing (whitelist w) []"
    have ne: "whitelist w \<noteq> []"
      using mem by auto
    then have run: "refreshPortals ?failing this = (Inr (), this\<lparr>portals := ?s\<rparr>)"
      by (simp add: refreshPortals_def wl)
    have unchanged: "fetchSchema ?failing (newMetadata a) = newMetadata a"
      using at by (simp add: fetchSchema_def newMetadata_def)
    have "map_of ?s pid = Some (newMetadata a)"
      using mem api unchanged by (simp add: map_of_whitelistLoop)
    then have entry: "(pid, newMetadata a) \<in> set ?s"
      by (rule map_of_SomeD)
    have "distinct (map fst ?s)"
      by (rule distinct_whitelistLoop) simp
    then have only: "filter (\<lambda>entry. fst entry = pid) ?s = [(pid, newMetadata a)]"
      using entry by (rule filter_key_unique)
    have none: "pm_tools (newMetadata a) = None"
      by (simp add: newMetadata_def)
    then have one: "portalTools (pid, newMetadata a) = [fallbackDescriptor pid (newMetadata a)]"
      by (simp add: portalTools_def)
    have "fallbackDescriptor pid (newMetadata a) \<in> set (getTools (this\<lparr>portals := ?s\<rparr>))"
      using entry one portalTools_subset [of "(pid, newMetadata a)" "this\<lparr>portals := ?s\<rparr>"]
      by auto
    then show ?thesis
      using only none one by (simp add: run)
  qed
  show ?thesis
    using refresh stored by simp
qed

theorem schema_failure_equals_empty_paths_witness:
  "map_of [(''openapi'', JStr ''3.0.0''), (''paths'', JObj [])] ''paths'' = Some (JObj [])
   \<and> whitelist (demoWorld ''BBBB'' fetchNone (Inr JNull)) = [''BBBB'']
   \<and> getAPI (demoWorld ''BBBB'' fetchNone (Inr JNull)) ''BBBB'' = Some (demoApi ''BBBB'')
   \<and> schemaUrl (api_url (demoApi ''BBBB'')) = ''BBBB/openapi.json''
   \<and> refreshPortals (demoWorld ''BBBB'' fetchNone (Inr JNull)
        \<lparr>axios_get := fetchNone(''BBBB/openapi.json'' \<mapsto>
           JObj [(''openapi'', JStr ''3.0.0''), (''paths'', JObj [])])\<rparr>) emptyManager =
       (Inr (), demoManager [(''BBBB'', newMetadata (demoApi ''BBBB''))])
   \<and> refreshPortals (demoWorld ''BBBB'' fetchNone (Inr JNull)
        \<lparr>axios_get := fetchNone(''BBBB/openapi.json'' := None)\<rparr>) emptyManager =
       (Inr (), demoManager [(''BBBB'', newMetadata (demoApi ''BBBB''))])
   \<and> getTools (demoManager [(''BBBB'', newMetadata (demoApi ''BBBB''))]) =
       [fallbackDescriptor ''BBBB'' (newMetadata (demoApi ''BBBB''))]"
proof -
  let ?w = "demoWorld ''BBBB'' fetchNone (Inr JNull)"
  have h: "map_of [(''openapi'', JStr ''3.0.0''), (''paths'', JObj [])] ''paths'' =
      Some (JObj [])"
    by simp
  have wl: "whitelist ?w = [''BBBB'']"
    by (simp add: whitelist_def demoWorld_def)
  have g: "getAPI ?w ''BBBB'' = Some (demoApi ''BBBB'')"
    by (simp add: demoWorld_def)
  have u: "schemaUrl (api_url (demoApi ''BBBB'')) = ''BBBB/openapi.json''"
    by (simp add: schemaUrl_def demoApi_def endsWith_def)
  have a: "axios_get ?w = fetchNone"
    by (simp add: demoWorld_def)
  have f: "refreshPortals (?w\<lparr>axios_get := fetchNone(''BBBB/openapi.json'' := None)\<rparr>)
      emptyManager = (Inr (), demoManager [(''BBBB'', newMetadata (demoApi ''BBBB''))])"
    by (simp add: refreshPortals_def whitelist_def demoWorld_def fetchSchema_def u
        emptyManager_def fetchNone_def)
  have t: "getTools (demoManager [(''BBBB'', newMetadata (demoApi ''BBBB''))]) =
       [fallbackDescriptor ''BBBB'' (newMetadata (demoApi ''BBBB''))]"
    by (simp add: getTools_def portalTools_def newMetadata_def)
  show ?thesis
    using h wl g u f t
      schema_failure_equals_empty_paths [OF h,
        of ?w "''BBBB/openapi.json''" emptyManager "''BBBB''" "demoApi ''BBBB''"]
    by (simp add: a)
qed

section \<open>Claims about the naming rule\<close>

text \<open>
  C3, amended. \<open>generateToolName\<close> is the function of the title and the id that the
  specification describes: the title in lower case, every run of characters other than
  \<open>a-z\<close> and \<open>0-9\<close> replaced by one underscore, one leading and one trailing underscore
  removed, \<open>portal_\<close> in front, an underscore and the first four characters of the id
  behind. Two providers get different names when the first four characters of their
  ids differ and, besides, their titles are equal or both ids have at least four
  characters.
\<close>

theorem generateToolName_rule:
  "generateToolName title pid = spec_generateToolName title pid
   \<and> (take 4 p1 \<noteq> take 4 p2 \<and> (t1 = t2 \<or> (4 \<le> length p1 \<and> 4 \<le> length p2))
        \<longrightarrow> generateToolName t1 p1 \<noteq> generateToolName t2 p2)"
  using generateToolName_is_spec generateToolName_suffix_inj by blast

theorem generateToolName_rule_witness:
  "generateToolName ''My  Cool-API!'' ''AbCdEfG'' = ''portal_my_cool_api_AbCd''
   \<and> take 4 ''abcd1'' \<noteq> take 4 ''abce1''
   \<and> generateToolName ''My API'' ''abcd1'' \<noteq> generateToolName ''My API'' ''abce1''"
proof -
  have h: "take 4 ''abcd1'' \<noteq> take 4 ''abce1''"
    by simp
  have v: "spec_generateToolName ''My  Cool-API!'' ''AbCdEfG'' = ''portal_my_cool_api_AbCd''"
    by (simp add: spec_generateToolName_def spec_slug_def spec_stripTrailing_def
        spec_stripLeading_def spec_mark_def endsWith_def lowerChar_def
        isAlnum_def)
  show ?thesis
    using h v
      generateToolName_rule [of "''My  Cool-API!''" "''AbCdEfG''" "''abcd1''" "''abce1''"
        "''My API''" "''My API''"]
    by simp
qed

text \<open>
  C3 as stated fails: two providers with the same title and the distinct ids \<open>abcd1\<close>
  and \<open>abcd2\<close> get the same name, because only four characters of the id are used.
\<close>

theorem generateToolName_distinct_ids_counterexample:
  "''abcd1'' \<noteq> ''abcd2''
   \<and> generateToolName ''My API'' ''abcd1'' = generateToolName ''My API'' ''abcd2''"
  by (simp add: generateToolName_def)

section \<open>Claims about names and resolution\<close>

text \<open>
  C4, amended. The code does nothing to keep exposed names apart. The names that
  \<open>getTools\<close> lists for a snapshot are pairwise distinct exactly when the stored
  \<open>operationId\<close>s of all providers are pairwise distinct, the generated names of the
  providers without tools are pairwise distinct, and no \<open>operationId\<close> is a generated
  name. The generated names are pairwise distinct when the ids of the providers without
  tools have at least four characters and differ pairwise in their first four.
\<close>

theorem exposed_names_distinct_iff:
  "(distinct (map d_name (getTools this)) \<longleftrightarrow>
      distinct (explicitNames (portals this)) \<and> distinct (fallbackNames (portals this))
      \<and> set (explicitNames (portals this)) \<inter> JStr ` set (fallbackNames (portals this)) = {})
   \<and> (distinct (map (take 4 \<circ> fst) (toolless (portals this)))
        \<and> (\<forall>entry \<in> set (toolless (portals this)). 4 \<le> length (fst entry))
        \<longrightarrow> distinct (fallbackNames (portals this)))"
  using distinct_names_iff [of "portals this"] distinct_fallbackNames [of "portals this"]
  by (simp add: getTools_def)

theorem exposed_names_distinct_iff_witness:
  "distinct (map (take 4 \<circ> fst)
      (toolless [(''AAAA'', demoPortal ''AAAA'' (Some [demoTool ''run''])),
                 (''BBBB'', demoPortal ''BBBB'' None), (''CCCC'', demoPortal ''CCCC'' None)]))
   \<and> map fst (toolless [(''AAAA'', demoPortal ''AAAA'' (Some [demoTool ''run''])),
                 (''BBBB'', demoPortal ''BBBB'' None), (''CCCC'', demoPortal ''CCCC'' None)]) =
       [''BBBB'', ''CCCC'']
   \<and> 4 \<le> length ''BBBB'' \<and> 4 \<le> length ''CCCC''
   \<and> distinct (fallbackNames [(''AAAA'', demoPortal ''AAAA'' (Some [demoTool ''run''])),
                 (''BBBB'', demoPortal ''BBBB'' None), (''CCCC'', demoPortal ''CCCC'' None)])
   \<and> distinct (map d_name (getTools
        (demoManager [(''AAAA'', demoPortal ''AAAA'' (Some [demoTool ''run''])),
                 (''BBBB'', demoPortal ''BBBB'' None), (''CCCC'', demoPortal ''CCCC'' None)])))"
proof -
  let ?s = "[(''AAAA'', demoPortal ''AAAA'' (Some [demoTool ''run''])),
             (''BBBB'', demoPortal ''BBBB'' None), (''CCCC'', demoPortal ''CCCC'' None)]"
  have t: "toolless ?s = [(''BBBB'', demoPortal ''BBBB'' None), (''CCCC'', demoPortal ''CCCC'' None)]"
    by (simp add: toolless_def demoPortal_def)
  have e: "explicitNames ?s = [JStr ''run'']"
    by (simp add: explicitNames_def demoPortal_def demoTool_def)
  have f: "fallbackNames ?s =
      [generateToolName ''T'' ''BBBB'', generateToolName ''T'' ''CCCC'']"
    by (simp add: fallbackNames_def t) (simp add: demoPortal_def)
  have g: "generateToolName ''T'' ''BBBB'' = ''portal_t_BBBB''"
    "generateToolName ''T'' ''CCCC'' = ''portal_t_CCCC''"
    by (simp_all add: naming_defs)
  show ?thesis
    using exposed_names_distinct_iff [of "(demoManager ?s)"]
    by (simp add: t e f g)
qed

text \<open>
  C4 as stated fails: two whitelisted providers that publish the same \<open>operationId\<close>
  are both stored, and \<open>getTools\<close> lists the name twice.
\<close>

theorem exposed_names_duplicate_counterexample:
  "refreshPortals (demoWorld ''AAAA,BBBB'' (fetchAll ''run'') (Inr JNull))
     emptyManager =
     (Inr (), (demoManager [(''AAAA'', demoPortal ''AAAA'' (Some [demoTool ''run''])),
                          (''BBBB'', demoPortal ''BBBB'' (Some [demoTool ''run'']))]))
   \<and> map d_name (getTools
        (demoManager [(''AAAA'', demoPortal ''AAAA'' (Some [demoTool ''run''])),
                    (''BBBB'', demoPortal ''BBBB'' (Some [demoTool ''run'']))])) =
       [JStr ''run'', JStr ''run'']
   \<and> \<not> distinct (map d_name (getTools
        (demoManager [(''AAAA'', demoPortal ''AAAA'' (Some [demoTool ''run''])),
                    (''BBBB'', demoPortal ''BBBB'' (Some [demoTool ''run'']))])))"
  by (simp add: demo_same_operation getTools_def portalTools_def demoPortal_def demoTool_def
      toolDescriptor_def)

text \<open>
  C2, amended. Resolution returns the first descriptor of the name in the order of the
  \<open>getTools\<close> list. Split the snapshot at the entry of a provider. If no entry before
  it exposes the name, then a stored tool of the provider that has this name (a string)
  and is the first of the provider's tools to have it resolves to that provider and
  that tool, and the generated name of a provider without tools resolves to that
  provider and no tool. If an entry before it exposes the name, the name resolves
  inside the entries before it, whatever the provider and the later entries hold.
\<close>

theorem resolution_roundtrip:
  assumes "portals this = pre @ (pid, portal) # post"
  shows "map d_name (getTools this) =
           exposedNames pre @ map d_name (portalTools (pid, portal)) @ exposedNames post
       \<and> (JStr name \<notin> set (exposedNames pre)
          \<and> pm_tools portal = Some (before @ t # after) \<and> tool_name t = JStr name
          \<and> JStr name \<notin> set (map tool_name before) \<longrightarrow>
            toolDescriptor t \<in> set (getTools this)
          \<and> findPortalAndToolByName (portals this) name = Some (portal, Some t))
       \<and> (JStr (generateToolName (pm_title portal) pid) \<notin> set (exposedNames pre)
          \<and> (pm_tools portal = None \<or> pm_tools portal = Some []) \<longrightarrow>
            fallbackDescriptor pid portal \<in> set (getTools this)
          \<and> findPortalAndToolByName (portals this) (generateToolName (pm_title portal) pid) =
              Some (portal, None))
       \<and> (JStr name \<in> set (exposedNames pre) \<longrightarrow>
            findPortalAndToolByName (portals this) name = findPortalAndToolByName pre name
          \<and> findPortalAndToolByName pre name \<noteq> None)"
proof -
  have mem: "(pid, portal) \<in> set (portals this)"
    using assms by simp
  have listed: "set (portalTools (pid, portal)) \<subseteq> set (getTools this)"
    using mem by (rule portalTools_subset)
  have order: "map d_name (getTools this) =
      exposedNames pre @ map d_name (portalTools (pid, portal)) @ exposedNames post"
    by (simp add: getTools_def assms exposedNames_def)
  have explicit: "toolDescriptor t \<in> set (getTools this)
          \<and> findPortalAndToolByName (portals this) name = Some (portal, Some t)"
    if "JStr name \<notin> set (exposedNames pre)" "pm_tools portal = Some (before @ t # after)"
      "tool_name t = JStr name" "JStr name \<notin> set (map tool_name before)"
  proof -
    have "toolDescriptor t \<in> set (portalTools (pid, portal))"
      using that(2) by (simp add: portalTools_explicit)
    moreover have "findPortalAndToolByName (pre @ (pid, portal) # post) name =
        Some (portal, Some t)"
      using find_append_unexposed [OF that(1)] find_head_explicit [OF that(2-4)] by simp
    ultimately show ?thesis
      using listed assms by auto
  qed
  have generated: "fallbackDescriptor pid portal \<in> set (getTools this)
          \<and> findPortalAndToolByName (portals this) (generateToolName (pm_title portal) pid) =
              Some (portal, None)"
    if "JStr (generateToolName (pm_title portal) pid) \<notin> set (exposedNames pre)"
      "pm_tools portal = None \<or> pm_tools portal = Some []"
  proof -
    have "fallbackDescriptor pid portal \<in> set (portalTools (pid, portal))"
      using that(2) by (simp add: portalTools_fallback)
    moreover have "findPortalAndToolByName (pre @ (pid, portal) # post)
        (generateToolName (pm_title portal) pid) = Some (portal, None)"
      using find_append_unexposed [OF that(1)] find_head_fallback [OF that(2)] by simp
    ultimately show ?thesis
      using listed assms by auto
  qed
  have earlier: "findPortalAndToolByName (portals this) name = findPortalAndToolByName pre name
          \<and> findPortalAndToolByName pre name \<noteq> None"
    if "JStr name \<in> set (exposedNames pre)"
    using that find_append_exposed [OF that] find_None_iff_unexposed [of pre name]
    by (simp add: assms)
  show ?thesis
  proof (intro conjI impI)
    show "map d_name (getTools this) =
        exposedNames pre @ map d_name (portalTools (pid, portal)) @ exposedNames post"
      by (rule order)
  next
    assume "JStr name \<notin> set (exposedNames pre)
          \<and> pm_tools portal = Some (before @ t # after) \<and> tool_name t = JStr name
          \<and> JStr name \<notin> set (map tool_name before)"
    then show "toolDescriptor t \<in> set (getTools this)"
      and "findPortalAndToolByName (portals this) name = Some (portal, Some t)"
      using explicit by simp_all
  next
    assume "JStr (generateToolName (pm_title portal) pid) \<notin> set (exposedNames pre)
          \<and> (pm_tools portal = None \<or> pm_tools portal = Some [])"
    then show "fallbackDescriptor pid portal \<in> set (getTools this)"
      and "findPortalAndToolByName (portals this) (generateToolName (pm_title portal) pid) =
              Some (portal, None)"
      using generated by simp_all
  next
    assume "JStr name \<in> set (exposedNames pre)"
    then show "findPortalAndToolByName (portals this) name = findPortalAndToolByName pre name"
      and "findPortalAndToolByName pre name \<noteq> None"
      using earlier by simp_all
  qed
qed

theorem resolution_roundtrip_witness:
  "JStr ''run'' \<notin> set (exposedNames [])
   \<and> findPortalAndToolByName
        [(''AAAA'', demoPortal ''AAAA'' (Some [demoTool ''run''])),
         (''BBBB'', demoPortal ''BBBB'' (Some [demoTool ''run''])),
         (''CCCC'', demoPortal ''CCCC'' None)] ''run'' =
       Some (demoPortal ''AAAA'' (Some [demoTool ''run'']), Some (demoTool ''run''))
   \<and> JStr ''portal_t_CCCC'' \<notin> set (exposedNames
        [(''AAAA'', demoPortal ''AAAA'' (Some [demoTool ''run''])),
         (''BBBB'', demoPortal ''BBBB'' (Some [demoTool ''run'']))])
   \<and> findPortalAndToolByName
        [(''AAAA'', demoPortal ''AAAA'' (Some [demoTool ''run''])),
         (''BBBB'', demoPortal ''BBBB'' (Some [demoTool ''run''])),
         (''CCCC'', demoPortal ''CCCC'' None)] ''portal_t_CCCC'' =
       Some (demoPortal ''CCCC'' None, None)
   \<and> JStr ''run'' \<in> set (exposedNames [(''AAAA'', demoPortal ''AAAA'' (Some [demoTool ''run'']))])
   \<and> findPortalAndToolByName
        [(''AAAA'', demoPortal ''AAAA'' (Some [demoTool ''run''])),
         (''BBBB'', demoPortal ''BBBB'' (Some [demoTool ''run''])),
         (''CCCC'', demoPortal ''CCCC'' None)] ''run'' =
       findPortalAndToolByName [(''AAAA'', demoPortal ''AAAA'' (Some [demoTool ''run'']))] ''run''"
proof -
  let ?a = "(''AAAA'', demoPortal ''AAAA'' (Some [demoTool ''run'']))"
  let ?b = "(''BBBB'', demoPortal ''BBBB'' (Some [demoTool ''run'']))"
  let ?c = "(''CCCC'', demoPortal ''CCCC'' None)"
  have sa: "portals (demoManager [?a, ?b, ?c]) = [] @ ?a # [?b, ?c]"
    and sb: "portals (demoManager [?a, ?b, ?c]) = [?a] @ ?b # [?c]"
    and sc: "portals (demoManager [?a, ?b, ?c]) = [?a, ?b] @ ?c # []"
    by simp_all
  have ta: "pm_tools (demoPortal ''AAAA'' (Some [demoTool ''run''])) = Some ([] @ demoTool ''run'' # [])"
    "tool_name (demoTool ''run'') = JStr ''run''"
    and tc: "pm_tools (demoPortal ''CCCC'' None) = None" "pm_title (demoPortal ''CCCC'' None) = ''T''"
    by (simp_all add: demoPortal_def demoTool_def)
  have n: "generateToolName ''T'' ''CCCC'' = ''portal_t_CCCC''"
    by (simp add: naming_defs)
  have e0: "JStr ''run'' \<notin> set (exposedNames [])"
    and e1: "JStr ''run'' \<in> set (exposedNames [?a])"
    and e2: "JStr ''portal_t_CCCC'' \<notin> set (exposedNames [?a, ?b])"
    by (simp_all add: exposedNames_def portalTools_def demoPortal_def demoTool_def
        toolDescriptor_def)
  show ?thesis
    using e0 e1 e2 ta tc
      resolution_roundtrip [OF sa, where name = "''run''" and before = "[]"
        and t = "demoTool ''run''" and after = "[]"]
      resolution_roundtrip [OF sb, where name = "''run''"]
      resolution_roundtrip [OF sc]
    by (simp add: n)
qed

text \<open>
  C2 as stated fails: when two providers publish the same \<open>operationId\<close>, the descriptor
  of the second one is listed, and resolving its name gives the first provider.
\<close>

theorem resolution_roundtrip_counterexample:
  "refreshPortals (demoWorld ''AAAA,BBBB'' (fetchAll ''run'') (Inr JNull))
     emptyManager =
     (Inr (), demoManager [(''AAAA'', demoPortal ''AAAA'' (Some [demoTool ''run''])),
                          (''BBBB'', demoPortal ''BBBB'' (Some [demoTool ''run'']))])
   \<and> portalTools (''BBBB'', demoPortal ''BBBB'' (Some [demoTool ''run''])) =
       [toolDescriptor (demoTool ''run'')]
   \<and> d_name (toolDescriptor (demoTool ''run'')) = JStr ''run''
   \<and> findPortalAndToolByName
        [(''AAAA'', demoPortal ''AAAA'' (Some [demoTool ''run''])),
         (''BBBB'', demoPortal ''BBBB'' (Some [demoTool ''run'']))] ''run'' =
       Some (demoPortal ''AAAA'' (Some [demoTool ''run'']), Some (demoTool ''run''))
   \<and> demoPortal ''AAAA'' (Some [demoTool ''run'']) \<noteq> demoPortal ''BBBB'' (Some [demoTool ''run''])"
  by (simp add: demo_same_operation portalTools_def demoPortal_def demoTool_def
      toolDescriptor_def)

section \<open>Claims about callTool\<close>




text \<open>
  C9, amended. Take a provider of a refreshed snapshot that has no tools. A call of
  its generated name resolves to the first entry of the snapshot that exposes the name.
  When that entry has no tools, which is the case whenever no entry before the provider
  stores a tool of that name, the call resolves to no tool, and whatever the validator
  would say about the arguments, and whatever the arguments are, the result is the one
  of the payment client, called with the arguments as they are and with \<open>undefined\<close>
  as the operation name. When that entry has tools, the call resolves to its first tool
  of that name, whose \<open>parameters\<close> pass the test of the \<open>if\<close>, and goes through the
  validation against them.
\<close>

theorem fallback_call_unchecked:
  assumes "refreshPortals w this = (Inr u, this')"
    and "portals this' = pre @ (pid, portal) # post" and "pm_tools portal = None"
  shows "\<exists>pid' portal'.
       firstExposing (portals this') (generateToolName (pm_title portal) pid) =
         Some (pid', portal')
     \<and> (JStr (generateToolName (pm_title portal) pid) \<notin> set (explicitNames pre) \<longrightarrow>
          pm_tools portal' = None)
     \<and> (pm_tools portal' = None \<longrightarrow>
          findPortalAndToolByName (portals this') (generateToolName (pm_title portal) pid) =
            Some (portal', None)
        \<and> callTool (w\<lparr>ajv_compile_error := c, ajv_violations := v\<rparr>)
              (generateToolName (pm_title portal) pid) args this =
            (dispatch w portal' None args, this')
        \<and> dispatch w portal' None args =
            (case callAPI w (pm_id portal') args JUndefined of
               Inl e \<Rightarrow> Inl (callFailed w e)
             | Inr r \<Rightarrow> Inr r))
     \<and> (pm_tools portal' \<noteq> None \<longrightarrow>
          (\<exists>t. findPortalAndToolByName (portals this')
                  (generateToolName (pm_title portal) pid) = Some (portal', Some t)
              \<and> tool_name t = JStr (generateToolName (pm_title portal) pid)
              \<and> truthy (tool_parameters t)
              \<and> callTool w (generateToolName (pm_title portal) pid) args this =
                  (case checkParameters w (Some t) args this' of
                     (Some e, this'') \<Rightarrow> (Inl e, this'')
                   | (None, this'') \<Rightarrow> (dispatch w portal' (Some t) args, this''))))"
proof -
  let ?name = "generateToolName (pm_title portal) pid"
  have own: "exposes (pid, portal) ?name"
    using assms(3) by (simp add: exposes_iff)
  obtain pid' portal' where first: "firstExposing (portals this') ?name = Some (pid', portal')"
    and place: "(pid', portal') = (pid, portal)
        \<or> ((pid', portal') \<in> set pre \<and> exposes (pid', portal') ?name)"
  proof (cases "find (\<lambda>entry. exposes entry ?name) pre")
    case None
    then have "firstExposing (portals this') ?name = Some (pid, portal)"
      using firstExposing_split [OF own, of pre post] by (simp add: assms(2))
    then show ?thesis
      using that by blast
  next
    case (Some e)
    then have "firstExposing (portals this') ?name = Some e"
      using firstExposing_split [OF own, of pre post] by (simp add: assms(2))
    moreover have "e \<in> set pre \<and> exposes e ?name"
      using Some by (rule find_SomeD)
    ultimately show ?thesis
      using that [of "fst e" "snd e"] by simp
  qed
  have mem: "(pid', portal') \<in> set (portals this')"
    using place by (auto simp: assms(2))
  have nonempty: "pm_tools portal' \<noteq> Some []"
    using refreshed_tools_nonempty [OF assms(1) mem] .
  have early: "pm_tools portal' = None"
    if "JStr ?name \<notin> set (explicitNames pre)"
  proof (cases "pm_tools portal'")
    case None
    then show ?thesis .
  next
    case (Some ts)
    then have ne: "ts \<noteq> []"
      using nonempty by auto
    from place show ?thesis
    proof
      assume "(pid', portal') = (pid, portal)"
      then show ?thesis using assms(3) by simp
    next
      assume "(pid', portal') \<in> set pre \<and> exposes (pid', portal') ?name"
      then have "JStr ?name \<in> set (explicitNames pre)"
        using Some ne exposing_explicit_listed by blast
      with that show ?thesis by simp
    qed
  qed
  have direct: "findPortalAndToolByName (portals this') ?name = Some (portal', None)
        \<and> callTool (w\<lparr>ajv_compile_error := c, ajv_violations := v\<rparr>) ?name args this =
            (dispatch w portal' None args, this')
        \<and> dispatch w portal' None args =
            (case callAPI w (pm_id portal') args JUndefined of
               Inl e \<Rightarrow> Inl (callFailed w e)
             | Inr r \<Rightarrow> Inr r)"
    if none: "pm_tools portal' = None"
  proof -
    have r: "findPortalAndToolByName (portals this') ?name = Some (portal', None)"
      using resolve_first [OF first] none by simp
    have "refreshPortals (w\<lparr>ajv_compile_error := c, ajv_violations := v\<rparr>) this = (Inr u, this')"
      by (simp only: refresh_ajv_upd assms(1))
    from callTool_resolved [OF this r]
    have "callTool (w\<lparr>ajv_compile_error := c, ajv_violations := v\<rparr>) ?name args this =
        (dispatch w portal' None args, this')"
      by (simp add: checkParameters_skipped dispatch_ajv_upd)
    moreover have "dispatch w portal' None args =
            (case callAPI w (pm_id portal') args JUndefined of
               Inl e \<Rightarrow> Inl (callFailed w e)
             | Inr r \<Rightarrow> Inr r)"
      by (simp add: dispatch_def)
    ultimately show ?thesis
      using r by simp
  qed
  have validated: "\<exists>t. findPortalAndToolByName (portals this') ?name = Some (portal', Some t)
              \<and> tool_name t = JStr ?name
              \<and> truthy (tool_parameters t)
              \<and> callTool w ?name args this =
                  (case checkParameters w (Some t) args this' of
                     (Some e, this'') \<Rightarrow> (Inl e, this'')
                   | (None, this'') \<Rightarrow> (dispatch w portal' (Some t) args, this''))"
    if some: "pm_tools portal' \<noteq> None"
  proof -
    from some obtain ts where ts: "pm_tools portal' = Some ts" by auto
    then have "ts \<noteq> []"
      using nonempty by auto
    then obtain t where r: "findPortalAndToolByName (portals this') ?name = Some (portal', Some t)"
      and t: "t \<in> set ts" "tool_name t = JStr ?name"
      using resolve_first [OF first] ts by blast
    have "truthy (tool_parameters t)"
      using refreshed_truthy [OF assms(1) mem ts] t(1) by simp
    moreover have "callTool w ?name args this =
                  (case checkParameters w (Some t) args this' of
                     (Some e, this'') \<Rightarrow> (Inl e, this'')
                   | (None, this'') \<Rightarrow> (dispatch w portal' (Some t) args, this''))"
      using callTool_resolved [OF assms(1) r, of args] .
    ultimately show ?thesis
      using r t(2) by blast
  qed
  show ?thesis
  proof (rule exI [of _ pid'], rule exI [of _ portal'], intro conjI impI)
    show "firstExposing (portals this') ?name = Some (pid', portal')"
      by (rule first)
  next
    assume "JStr ?name \<notin> set (explicitNames pre)"
    then show "pm_tools portal' = None"
      by (rule early)
  next
    assume "pm_tools portal' = None"
    then show "findPortalAndToolByName (portals this') ?name = Some (portal', None)"
      and "callTool (w\<lparr>ajv_compile_error := c, ajv_violations := v\<rparr>) ?name args this =
            (dispatch w portal' None args, this')"
      and "dispatch w portal' None args =
            (case callAPI w (pm_id portal') args JUndefined of
               Inl e \<Rightarrow> Inl (callFailed w e)
             | Inr r \<Rightarrow> Inr r)"
      using direct by simp_all
  next
    assume "pm_tools portal' \<noteq> None"
    then show "\<exists>t. findPortalAndToolByName (portals this') ?name = Some (portal', Some t)
              \<and> tool_name t = JStr ?name
              \<and> truthy (tool_parameters t)
              \<and> callTool w ?name args this =
                  (case checkParameters w (Some t) args this' of
                     (Some e, this'') \<Rightarrow> (Inl e, this'')
                   | (None, this'') \<Rightarrow> (dispatch w portal' (Some t) args, this''))"
      by (rule validated)
  qed
qed

theorem fallback_call_unchecked_witness:
  "refreshPortals (demoWorld ''BBBB,AAAA'' (fetchAAAA ''portal_t_BBBB'') (Inr (JStr ''ok'')))
      emptyManager =
     (Inr (), demoManager [(''BBBB'', demoPortal ''BBBB'' None),
                           (''AAAA'', demoPortal ''AAAA'' (Some [demoTool ''portal_t_BBBB'']))])
   \<and> pm_tools (demoPortal ''BBBB'' None) = None
   \<and> generateToolName (pm_title (demoPortal ''BBBB'' None)) ''BBBB'' = ''portal_t_BBBB''
   \<and> JStr ''portal_t_BBBB'' \<notin> set (explicitNames [])
   \<and> callTool (demoWorld ''BBBB,AAAA'' (fetchAAAA ''portal_t_BBBB'') (Inr (JStr ''ok'')))
        ''portal_t_BBBB'' (JNum 1) emptyManager =
       (Inr (JStr ''ok''),
        demoManager [(''BBBB'', demoPortal ''BBBB'' None),
                     (''AAAA'', demoPortal ''AAAA'' (Some [demoTool ''portal_t_BBBB'']))])"
proof -
  let ?w = "demoWorld ''BBBB,AAAA'' (fetchAAAA ''portal_t_BBBB'') (Inr (JStr ''ok''))"
  let ?b = "(''BBBB'', demoPortal ''BBBB'' None)"
  let ?a = "(''AAAA'', demoPortal ''AAAA'' (Some [demoTool ''portal_t_BBBB'']))"
  have r: "refreshPortals ?w emptyManager = (Inr (), demoManager [?b, ?a])"
    by (rule demo_shadow_later)
  have s: "portals (demoManager [?b, ?a]) = [] @ ?b # [?a]"
    by simp
  have n: "pm_tools (demoPortal ''BBBB'' None) = None"
    by (simp add: demoPortal_def)
  have t: "generateToolName (pm_title (demoPortal ''BBBB'' None)) ''BBBB'' = ''portal_t_BBBB''"
    by (simp add: demoPortal_def demo_name)
  have x: "JStr ''portal_t_BBBB'' \<notin> set (explicitNames [])"
    by (simp add: explicitNames_def)
  have d: "dispatch ?w p tool args = Inr (JStr ''ok'')" for p tool args
    by (simp add: dispatch_def demoWorld_def)
  have u: "?w\<lparr>ajv_compile_error := ajv_compile_error ?w, ajv_violations := ajv_violations ?w\<rparr> = ?w"
    by simp
  have "callTool ?w ''portal_t_BBBB'' (JNum 1) emptyManager =
      (Inr (JStr ''ok''), demoManager [?b, ?a])"
    using fallback_call_unchecked [OF r s n, where args = "JNum 1"
        and c = "ajv_compile_error ?w" and v = "ajv_violations ?w"] x
    by (elim exE conjE) (simp add: t u d)
  then show ?thesis
    using r n t x by simp
qed

text \<open>
  C9 as stated fails where the generated name is shadowed: the provider \<open>BBBB\<close> has
  no tools and is listed under its generated name, but the provider before it publishes
  an operation of that very name, so a call of the name resolves to that operation and
  the argument \<open>1\<close> is rejected by the validation against its schema.
\<close>

theorem fallback_call_shadowed_counterexample:
  "refreshPortals (demoWorld ''AAAA,BBBB'' (fetchAAAA ''portal_t_BBBB'') (Inr (JStr ''ok'')))
      emptyManager =
     (Inr (), demoManager [(''AAAA'', demoPortal ''AAAA'' (Some [demoTool ''portal_t_BBBB''])),
                           (''BBBB'', demoPortal ''BBBB'' None)])
   \<and> pm_tools (demoPortal ''BBBB'' None) = None
   \<and> portalTools (''BBBB'', demoPortal ''BBBB'' None) =
       [fallbackDescriptor ''BBBB'' (demoPortal ''BBBB'' None)]
   \<and> d_name (fallbackDescriptor ''BBBB'' (demoPortal ''BBBB'' None)) = JStr ''portal_t_BBBB''
   \<and> callTool (demoWorld ''AAAA,BBBB'' (fetchAAAA ''portal_t_BBBB'') (Inr (JStr ''ok'')))
        ''portal_t_BBBB'' (JNum 1) emptyManager =
       (Inl (Error ''Invalid parameters: [errors]''),
        (demoManager [(''AAAA'', demoPortal ''AAAA'' (Some [demoTool ''portal_t_BBBB''])),
                      (''BBBB'', demoPortal ''BBBB'' None)])
          \<lparr>ajv_compiled := [emptyObjectSchema]\<rparr>)"
proof -
  let ?w = "demoWorld ''AAAA,BBBB'' (fetchAAAA ''portal_t_BBBB'') (Inr (JStr ''ok''))"
  let ?s = "[(''AAAA'', demoPortal ''AAAA'' (Some [demoTool ''portal_t_BBBB''])),
             (''BBBB'', demoPortal ''BBBB'' None)]"
  have r: "refreshPortals ?w emptyManager = (Inr (), demoManager ?s)"
    by (rule demo_shadowed)
  have f: "findPortalAndToolByName (portals (demoManager ?s)) ''portal_t_BBBB'' =
      Some (demoPortal ''AAAA'' (Some [demoTool ''portal_t_BBBB'']),
            Some (demoTool ''portal_t_BBBB''))"
    by (simp add: demoPortal_def demoTool_def)
  have c: "checkParameters ?w (Some (demoTool ''portal_t_BBBB'')) (JNum 1) (demoManager ?s) =
      (Some (Error ''Invalid parameters: [errors]''),
       (demoManager ?s)\<lparr>ajv_compiled := [emptyObjectSchema]\<rparr>)"
    by (simp add: checkParameters_def validate_errors_def ajv_def demoTool_def demoWorld_def
        emptyObjectSchema_def)
  have call: "callTool ?w ''portal_t_BBBB'' (JNum 1) emptyManager =
       (Inl (Error ''Invalid parameters: [errors]''),
        (demoManager ?s)\<lparr>ajv_compiled := [emptyObjectSchema]\<rparr>)"
    using callTool_resolved [OF r f, of "JNum 1"] by (simp add: c)
  have p: "pm_tools (demoPortal ''BBBB'' None) = None"
    "pm_title (demoPortal ''BBBB'' None) = ''T''"
    by (simp_all add: demoPortal_def)
  show ?thesis
    using r call by (simp add: portalTools_def fallbackDescriptor_def p demo_name)
qed

text \<open>
  C5. Take a call that reaches the payment client and is rejected with a value other
  than \<open>null\<close> and \<open>undefined\<close>; its text is its message, or its string form when it
  has no message. \<open>callTool\<close> raises the error of the \<open>catch\<close> block. If the text
  contains \<open>Insufficient SOL\<close> the error is the SOL template, else if it contains
  \<open>Insufficient USDC\<close> or \<open>InsufficientUsdcBalance\<close> it is the USDC template, and
  otherwise it is \<open>Portal call failed:\<close> followed by the text. A template contains
  the wallet address and the instruction to retry after funding, and nothing of the
  raw text goes into it: it is built from the wallet address alone, so two rejections
  of the same kind raise the same error whatever their texts are.
\<close>

theorem callTool_failure_classification:
  assumes "refreshPortals w this = (Inr u, this')"
    and "findPortalAndToolByName (portals this') name = Some (portal, tool)"
    and "checkParameters w tool args this' = (None, this'')"
    and "callAPI w (pm_id portal) args
           (case tool of None \<Rightarrow> JUndefined | Some t \<Rightarrow> tool_name t) =
         Inl (Thrown message toString)"
  shows "callTool w name args this = (Inl (callFailed w (Thrown message toString)), this'')
       \<and> (message \<noteq> [] \<longrightarrow> errorMsg message toString = message)
       \<and> (includesStr (errorMsg message toString) ''Insufficient SOL'' \<longrightarrow>
            callFailed w (Thrown message toString) =
              Error (insufficientSolMessage (getAddress w))
          \<and> (includesStr (errorMsg message' toString') ''Insufficient SOL'' \<longrightarrow>
               callFailed w (Thrown message' toString') =
                 callFailed w (Thrown message toString)))
       \<and> (\<not> includesStr (errorMsg message toString) ''Insufficient SOL''
          \<and> (includesStr (errorMsg message toString) ''Insufficient USDC''
              \<or> includesStr (errorMsg message toString) ''InsufficientUsdcBalance'') \<longrightarrow>
            callFailed w (Thrown message toString) =
              Error (insufficientUsdcMessage (getAddress w))
          \<and> (\<not> includesStr (errorMsg message' toString') ''Insufficient SOL''
              \<and> (includesStr (errorMsg message' toString') ''Insufficient USDC''
                  \<or> includesStr (errorMsg message' toString') ''InsufficientUsdcBalance'') \<longrightarrow>
               callFailed w (Thrown message' toString') =
                 callFailed w (Thrown message toString)))
       \<and> (\<not> includesStr (errorMsg message toString) ''Insufficient SOL''
          \<and> \<not> includesStr (errorMsg message toString) ''Insufficient USDC''
          \<and> \<not> includesStr (errorMsg message toString) ''InsufficientUsdcBalance'' \<longrightarrow>
            callFailed w (Thrown message toString) =
              Error (''Portal call failed: '' @ errorMsg message toString))
       \<and> includesStr (insufficientSolMessage (getAddress w)) (getAddress w)
       \<and> includesStr (insufficientSolMessage (getAddress w))
            ''After funding, retry this request.''
       \<and> includesStr (insufficientUsdcMessage (getAddress w)) (getAddress w)
       \<and> includesStr (insufficientUsdcMessage (getAddress w))
            ''After funding, retry this request.''"
proof -
  have "callTool w name args this = (Inl (callFailed w (Thrown message toString)), this'')"
    using callTool_resolved [OF assms(1,2), of args] assms(3,4)
    by (simp add: dispatch_def)
  moreover have "message \<noteq> [] \<longrightarrow> errorMsg message toString = message"
    by (simp add: errorMsg_def)
  ultimately show ?thesis
    using message_contains [of "getAddress w"] by simp
qed

theorem callTool_failure_classification_witness:
  "callTool (demoWorld ''BBBB'' fetchNone
       (Inl (Thrown ''Insufficient SOL for fee'' ''Error: Insufficient SOL for fee'')))
     ''portal_t_BBBB'' (JObj []) emptyManager =
     (Inl (Error (insufficientSolMessage ''Wa11et'')),
      demoManager [(''BBBB'', demoPortal ''BBBB'' None)])
   \<and> includesStr (insufficientSolMessage ''Wa11et'') ''Wa11et''
   \<and> includesStr (insufficientSolMessage ''Wa11et'') ''After funding, retry this request.''
   \<and> \<not> includesStr (insufficientSolMessage ''Wa11et'') ''Insufficient SOL for fee''
   \<and> callFailed (demoWorld ''BBBB'' fetchNone
        (Inl (Thrown ''Insufficient SOL for fee'' ''Error: Insufficient SOL for fee'')))
        (Thrown ''Insufficient SOL'' ''Error: Insufficient SOL'') =
       Error (insufficientSolMessage ''Wa11et'')"
proof -
  let ?w = "demoWorld ''BBBB'' fetchNone
       (Inl (Thrown ''Insufficient SOL for fee'' ''Error: Insufficient SOL for fee''))"
  let ?s = "[(''BBBB'', demoPortal ''BBBB'' None)]"
  have r: "refreshPortals ?w emptyManager = (Inr (), demoManager ?s)"
    by (rule demo_toolless)
  have f: "findPortalAndToolByName (portals (demoManager ?s)) ''portal_t_BBBB'' =
      Some (demoPortal ''BBBB'' None, None)"
    by (simp add: demoPortal_def demo_name)
  have c: "checkParameters ?w None (JObj []) (demoManager ?s) = (None, demoManager ?s)"
    by (simp add: checkParameters_def)
  have a: "callAPI ?w (pm_id (demoPortal ''BBBB'' None)) (JObj [])
      (case None :: tool option of None \<Rightarrow> JUndefined | Some t \<Rightarrow> tool_name t) =
      Inl (Thrown ''Insufficient SOL for fee'' ''Error: Insufficient SOL for fee'')"
    by (simp add: demoWorld_def)
  have m: "includesStr (errorMsg ''Insufficient SOL for fee'' ''Error: Insufficient SOL for fee'')
      ''Insufficient SOL''"
    "includesStr (errorMsg ''Insufficient SOL'' ''Error: Insufficient SOL'') ''Insufficient SOL''"
    by (simp_all add: errorMsg_def)
  have g: "getAddress ?w = ''Wa11et''"
    by (simp add: demoWorld_def)
  have n: "\<not> includesStr (insufficientSolMessage ''Wa11et'') ''Insufficient SOL for fee''"
    by (simp add: insufficientSolMessage_def crossMark_def nl_def)
  note all = callTool_failure_classification [OF r f c a,
      where message' = "''Insufficient SOL''" and toString' = "''Error: Insufficient SOL''"]
  have call: "callTool ?w ''portal_t_BBBB'' (JObj []) emptyManager =
      (Inl (callFailed ?w
         (Thrown ''Insufficient SOL for fee'' ''Error: Insufficient SOL for fee'')),
       demoManager ?s)"
    using all by (rule conjunct1)
  note sol = all [THEN conjunct2, THEN conjunct2, THEN conjunct1, THEN mp, OF m(1)]
  have k: "callFailed ?w (Thrown ''Insufficient SOL for fee'' ''Error: Insufficient SOL for fee'') =
      Error (insufficientSolMessage ''Wa11et'')"
    using sol [THEN conjunct1] by (simp only: g)
  have same: "callFailed ?w (Thrown ''Insufficient SOL'' ''Error: Insufficient SOL'') =
      Error (insufficientSolMessage ''Wa11et'')"
    using sol [THEN conjunct2, THEN mp, OF m(2)] by (simp only: k)
  have raised: "callTool ?w ''portal_t_BBBB'' (JObj []) emptyManager =
      (Inl (Error (insufficientSolMessage ''Wa11et'')), demoManager ?s)"
    using call by (simp only: k)
  show ?thesis
    using raised message_contains(1,2) [of "''Wa11et''"] n same
    by (intro conjI) assumption+
qed

end
